theory Spec2Isabelle
  imports Complex_Main "HOL-Library.AList"
begin

section \<open>Floating-point numbers\<close>

text \<open>
  A finite binary floating-point number is represented by the rational number it denotes.
  Rounding is to nearest, ties to even, with a significand of \<open>p\<close> bits and a least
  exponent \<open>emin\<close> for the unit in the last place (gradual underflow). Infinities and
  NaN are not represented: the model covers finite values whose rounding does not overflow.
\<close>

fun bitlen :: "nat \<Rightarrow> nat" where
  "bitlen n = (if n = 0 then 0 else Suc (bitlen (n div 2)))"

declare bitlen.simps [simp del]

definition ilog2 :: "rat \<Rightarrow> int" where
  "ilog2 x = (if 1 \<le> x then int (bitlen (nat \<lfloor>x\<rfloor>)) - 1
              else - int (bitlen (nat (\<lceil>1 / x\<rceil> - 1))))"

definition pow2 :: "int \<Rightarrow> rat" where
  "pow2 e = (if 0 \<le> e then 2 ^ nat e else 1 / 2 ^ nat (- e))"

definition round_half_even :: "rat \<Rightarrow> int" where
  "round_half_even x =
     (let f = \<lfloor>x\<rfloor>; d = x - of_int f
      in if d < 1 / 2 then f else if 1 / 2 < d then f + 1
         else if even f then f else f + 1)"

definition fl_round :: "nat \<Rightarrow> int \<Rightarrow> rat \<Rightarrow> rat" where
  "fl_round p emin x =
     (if x = 0 then 0
      else let e = max (ilog2 \<bar>x\<bar> - (int p - 1)) emin;
               m = round_half_even (\<bar>x\<bar> / pow2 e)
           in sgn x * of_int m * pow2 e)"

definition to_float32 :: "rat \<Rightarrow> rat" where
  "to_float32 = fl_round 24 (- 149)"

definition to_float64 :: "rat \<Rightarrow> rat" where
  "to_float64 = fl_round 53 (- 1074)"

text \<open>Python's \<open>a / b\<close> on floats: the quotient, rounded to a double.\<close>

definition float_div :: "rat \<Rightarrow> rat \<Rightarrow> rat" where
  "float_div a b = to_float64 (a / b)"

text \<open>The double written \<open>0.8\<close> in Python source.\<close>

definition double_0_8 :: rat where
  "double_0_8 = 3602879701896397 / 4503599627370496"

section \<open>Errors\<close>

type_synonym spacing3d = "rat \<times> rat \<times> rat"

datatype message =
    Expected_3D_volume "nat list"
  | Target_spacing_must_be_positive spacing3d
  | Row_has_no_field string string

datatype py_error =
    ValueError message
  | IndexError
  | TypeError
  | KeyError string
  | FileNotFoundError string
  | JSONEncodeError
  | LibraryError
  | InvalidReference

section \<open>Zoom factors\<close>

text \<open>\<open>compute_zoom_factors\<close> of \<open>normalize_resample.py\<close>.\<close>

fun compute_zoom_factors :: "spacing3d \<Rightarrow> spacing3d \<Rightarrow> py_error + spacing3d" where
  "compute_zoom_factors (sz, sy, sx) (tz, ty, tx) =
     (if tz \<le> 0 \<or> ty \<le> 0 \<or> tx \<le> 0
      then Inl (ValueError (Target_spacing_must_be_positive (tz, ty, tx)))
      else Inr (float_div sz tz, float_div sy ty, float_div sx tx))"

section \<open>NumPy arrays and the library boundary\<close>

datatype dtype = Bool | Int16 | Int32 | Float32 | Float64

text \<open>An array is its element type tag, its shape and its elements in C (raster) order.\<close>

record 'a ndarray =
  dtype :: dtype
  shape :: "nat list"
  elems :: "'a list"

text \<open>
  The functions of \<open>scipy.ndimage\<close> the code calls are parameters of the model. The
  structuring element of \<open>binary_closing\<close> is fixed by the caller (rank 3,
  connectivity 1) and is part of the parameter.
\<close>

record scipy_ndimage =
  nd_gaussian_filter :: "rat ndarray \<Rightarrow> rat \<Rightarrow> py_error + rat ndarray"
  nd_zoom :: "rat ndarray \<Rightarrow> spacing3d \<Rightarrow> int \<Rightarrow> py_error + rat ndarray"
  nd_label :: "bool ndarray \<Rightarrow> nat ndarray \<times> nat"
  nd_binary_closing :: "bool ndarray \<Rightarrow> int \<Rightarrow> bool ndarray"
  nd_binary_fill_holes :: "bool ndarray \<Rightarrow> bool ndarray"

section \<open>The Python heap\<close>

text \<open>
  Arrays and dictionaries are objects with identity: the code updates both in place, so
  they live in a store and are passed by address. The store of each kind is a list, an
  address is an index into it, and a new object goes to the end. Tuples and lists are
  never updated by the code and are values. Dictionary keys are strings; a dictionary
  keeps its items in insertion order.
\<close>

type_synonym addr = nat

datatype py_value =
    PNone
  | PBool bool
  | PInt int
  | PFloat rat
  | PStr string
  | PTuple "py_value list"
  | PList "py_value list"
  | PDict addr

type_synonym py_dict = "(string \<times> py_value) list"

record py_heap =
  arrays :: "rat ndarray list"
  dicts :: "py_dict list"
  recursion_limit :: nat

text \<open>
  A computation takes the heap and returns its result, or the exception it raised, with
  the heap as it has become: updates made before an exception stay.
\<close>

type_synonym ('a, 's) run = "'s \<Rightarrow> (py_error + 'a) \<times> 's"

type_synonym 'a py = "('a, py_heap) run"

definition py_return :: "'a \<Rightarrow> ('a, 's) run" where
  "py_return x h = (Inr x, h)"

definition py_raise :: "py_error \<Rightarrow> ('a, 's) run" where
  "py_raise e h = (Inl e, h)"

definition py_bind :: "('a, 's) run \<Rightarrow> ('a \<Rightarrow> ('b, 's) run) \<Rightarrow> ('b, 's) run" where
  "py_bind m f h = (case m h of (Inl e, h') \<Rightarrow> (Inl e, h') | (Inr x, h') \<Rightarrow> f x h')"

definition new_array :: "rat ndarray \<Rightarrow> addr py" where
  "new_array a h = (Inr (length (arrays h)), h\<lparr>arrays := arrays h @ [a]\<rparr>)"

definition new_dict :: "py_dict \<Rightarrow> addr py" where
  "new_dict d h = (Inr (length (dicts h)), h\<lparr>dicts := dicts h @ [d]\<rparr>)"

text \<open>Reading an address that holds no object cannot happen in Python; the model makes it an error.\<close>

definition get_array :: "addr \<Rightarrow> (rat ndarray) py" where
  "get_array v h =
     (if v < length (arrays h) then (Inr (arrays h ! v), h) else (Inl InvalidReference, h))"

definition get_dict :: "addr \<Rightarrow> py_dict py" where
  "get_dict m h =
     (if m < length (dicts h) then (Inr (dicts h ! m), h) else (Inl InvalidReference, h))"

text \<open>\<open>d[k] = v\<close> on the dictionary at an address.\<close>

definition set_item :: "addr \<Rightarrow> string \<Rightarrow> py_value \<Rightarrow> unit py" where
  "set_item m k v h =
     (if m < length (dicts h)
      then (Inr (), h\<lparr>dicts := (dicts h)[m := AList.update k v (dicts h ! m)]\<rparr>)
      else (Inl InvalidReference, h))"

text \<open>
  \<open>a.astype(np.float32, copy=False)\<close>: the array itself when it is float32 already, a
  new array of the rounded elements otherwise.
\<close>

definition astype_float32 :: "addr \<Rightarrow> addr py" where
  "astype_float32 v =
     py_bind (get_array v) (\<lambda>a.
       if dtype a = Float32 then py_return v
       else new_array (a\<lparr>dtype := Float32, elems := map to_float32 (elems a)\<rparr>))"

text \<open>\<open>np.clip(v, lo, hi, out=v)\<close>: minimum of the maximum, written into \<open>v\<close>.\<close>

definition clip :: "rat \<Rightarrow> rat \<Rightarrow> rat \<Rightarrow> rat" where
  "clip lo hi x = min (max x lo) hi"

definition np_clip_out :: "addr \<Rightarrow> rat \<Rightarrow> rat \<Rightarrow> addr py" where
  "np_clip_out v lo hi =
     py_bind (get_array v) (\<lambda>a h.
       (Inr v, h\<lparr>arrays := (arrays h)[v := a\<lparr>elems := map (clip lo hi) (elems a)\<rparr>]\<rparr>))"

text \<open>A library function from arrays to arrays, applied to the array at an address.\<close>

definition apply_ndimage :: "(rat ndarray \<Rightarrow> py_error + rat ndarray) \<Rightarrow> addr \<Rightarrow> addr py" where
  "apply_ndimage f v =
     py_bind (get_array v) (\<lambda>a.
       case f a of Inl e \<Rightarrow> py_raise e | Inr b \<Rightarrow> new_array b)"

section \<open>Normalization and resampling\<close>

record ct_volume =
  data :: addr
  spacing :: spacing3d
  metadata :: py_value

definition clamp_hu :: "addr \<Rightarrow> int \<Rightarrow> int \<Rightarrow> addr py" where
  "clamp_hu volume hu_min hu_max =
     py_bind (astype_float32 volume) (\<lambda>v.
       np_clip_out v (to_float32 (of_int hu_min)) (to_float32 (of_int hu_max)))"

definition maybe_denoise :: "scipy_ndimage \<Rightarrow> addr \<Rightarrow> bool \<Rightarrow> rat \<Rightarrow> addr py" where
  "maybe_denoise lib volume enabled sigma =
     (if \<not> enabled then py_return volume
      else py_bind (astype_float32 volume) (\<lambda>v.
           py_bind (apply_ndimage (\<lambda>a. nd_gaussian_filter lib a sigma) v) (\<lambda>out.
           astype_float32 out)))"

definition resample_to_spacing ::
  "scipy_ndimage \<Rightarrow> addr \<Rightarrow> spacing3d \<Rightarrow> spacing3d \<Rightarrow> int \<Rightarrow> addr py" where
  "resample_to_spacing lib volume current_spacing target_spacing order =
     (case compute_zoom_factors current_spacing target_spacing of
        Inl e \<Rightarrow> py_raise e
      | Inr zoom_factors \<Rightarrow>
          py_bind (astype_float32 volume) (\<lambda>v.
          py_bind (apply_ndimage (\<lambda>a. nd_zoom lib a zoom_factors order) v) (\<lambda>resampled.
          astype_float32 resampled)))"

definition float_tuple :: "spacing3d \<Rightarrow> py_value" where
  "float_tuple s = (case s of (z, y, x) \<Rightarrow> PTuple [PFloat z, PFloat y, PFloat x])"

definition normalize_resample_record ::
  "spacing3d \<Rightarrow> int \<times> int \<Rightarrow> bool \<Rightarrow> rat \<Rightarrow> int \<Rightarrow> py_dict" where
  "normalize_resample_record target_spacing hu_window apply_denoising denoise_sigma
       interpolation_order =
     [(''hu_window'', PTuple [PFloat (to_float64 (of_int (fst hu_window))),
                              PFloat (to_float64 (of_int (snd hu_window)))]),
      (''apply_denoising'', PBool apply_denoising),
      (''denoise_sigma'', PFloat denoise_sigma),
      (''target_spacing_mm'', float_tuple target_spacing),
      (''interpolation_order'', PInt interpolation_order)]"

text \<open>
  \<open>dict(metadata) if metadata is not None else {}\<close>: a new dictionary with the items of
  the caller's one. The values are copied as they are, so a nested dictionary is shared.
\<close>

definition copy_metadata :: "addr option \<Rightarrow> addr py" where
  "copy_metadata caller_metadata =
     (case caller_metadata of
        None \<Rightarrow> new_dict []
      | Some m \<Rightarrow> py_bind (get_dict m) new_dict)"

text \<open>\<open>meta.get("preprocessing", {})\<close>: the default is built before the lookup.\<close>

definition get_preprocessing :: "addr \<Rightarrow> py_value py" where
  "get_preprocessing meta =
     py_bind (new_dict []) (\<lambda>dflt.
     py_bind (get_dict meta) (\<lambda>d.
       py_return (case map_of d ''preprocessing'' of None \<Rightarrow> PDict dflt | Some v \<Rightarrow> v)))"

text \<open>\<open>preprocessing_info["normalize_resample"] = {...}\<close>: only a dictionary takes the item.\<close>

definition set_normalize_resample :: "py_value \<Rightarrow> py_dict \<Rightarrow> unit py" where
  "set_normalize_resample preprocessing_info entry =
     py_bind (new_dict entry) (\<lambda>r.
       case preprocessing_info of
         PDict p \<Rightarrow> set_item p ''normalize_resample'' (PDict r)
       | _ \<Rightarrow> py_raise TypeError)"

text \<open>Step 4 of \<open>normalize_and_resample\<close>, the metadata update.\<close>

definition stamp_metadata ::
  "addr option \<Rightarrow> spacing3d \<Rightarrow> int \<times> int \<Rightarrow> bool \<Rightarrow> rat \<Rightarrow> int \<Rightarrow> addr py" where
  "stamp_metadata caller_metadata target_spacing hu_window apply_denoising denoise_sigma
       interpolation_order =
     py_bind (copy_metadata caller_metadata) (\<lambda>meta.
     py_bind (set_item meta ''spacing_mm'' (float_tuple target_spacing)) (\<lambda>_.
     py_bind (get_preprocessing meta) (\<lambda>preprocessing_info.
     py_bind (set_normalize_resample preprocessing_info
                (normalize_resample_record target_spacing hu_window apply_denoising
                   denoise_sigma interpolation_order)) (\<lambda>_.
     py_bind (set_item meta ''preprocessing'' preprocessing_info) (\<lambda>_.
     py_return meta)))))"

definition normalize_and_resample ::
  "scipy_ndimage \<Rightarrow> addr \<Rightarrow> spacing3d \<Rightarrow> addr option \<Rightarrow> spacing3d \<Rightarrow> int \<times> int \<Rightarrow>
     bool \<Rightarrow> rat \<Rightarrow> int \<Rightarrow> ct_volume py" where
  "normalize_and_resample lib volume volume_spacing caller_metadata target_spacing hu_window
       apply_denoising denoise_sigma interpolation_order =
     py_bind (clamp_hu volume (fst hu_window) (snd hu_window)) (\<lambda>v1.
     py_bind (maybe_denoise lib v1 apply_denoising denoise_sigma) (\<lambda>v2.
     py_bind (resample_to_spacing lib v2 volume_spacing target_spacing interpolation_order) (\<lambda>v3.
     py_bind (stamp_metadata caller_metadata target_spacing hu_window apply_denoising
                denoise_sigma interpolation_order) (\<lambda>meta.
     py_bind (astype_float32 v3) (\<lambda>v4.
     py_return \<lparr>data = v4, spacing = target_spacing, metadata = PDict meta\<rparr>)))))"

section \<open>The cache of normalized volumes\<close>

text \<open>
  A JSON document is represented by its tree; its text is not modelled. \<open>json.dumps\<close>
  writes a tuple as an array, and fails on a circular reference or on nesting deeper
  than the interpreter's recursion limit. \<open>json.loads\<close> reads an array as a list and
  builds a new dictionary for every object.
\<close>

datatype json =
    JNull
  | JBool bool
  | JInt int
  | JFloat rat
  | JStr string
  | JArr "json list"
  | JObj "(string \<times> json) list"

fun json_encode :: "nat \<Rightarrow> py_dict list \<Rightarrow> py_value \<Rightarrow> json option" where
  "json_encode 0 ds v = None"
| "json_encode (Suc n) ds PNone = Some JNull"
| "json_encode (Suc n) ds (PBool b) = Some (JBool b)"
| "json_encode (Suc n) ds (PInt i) = Some (JInt i)"
| "json_encode (Suc n) ds (PFloat x) = Some (JFloat x)"
| "json_encode (Suc n) ds (PStr s) = Some (JStr s)"
| "json_encode (Suc n) ds (PTuple vs) = map_option JArr (those (map (json_encode n ds) vs))"
| "json_encode (Suc n) ds (PList vs) = map_option JArr (those (map (json_encode n ds) vs))"
| "json_encode (Suc n) ds (PDict a) =
     (if a < length ds
      then map_option JObj
             (those (map (\<lambda>kv. map_option (Pair (fst kv)) (json_encode n ds (snd kv))) (ds ! a)))
      else None)"

definition json_dumps :: "py_value \<Rightarrow> json py" where
  "json_dumps v h =
     (case json_encode (recursion_limit h) (dicts h) v of
        None \<Rightarrow> (Inl JSONEncodeError, h)
      | Some j \<Rightarrow> (Inr j, h))"

text \<open>\<open>dict(pairs)\<close>: a later pair with the same key replaces the value of the earlier one.\<close>

definition dict_of_pairs :: "py_dict \<Rightarrow> py_dict" where
  "dict_of_pairs kvs = foldl (\<lambda>d kv. AList.update (fst kv) (snd kv) d) [] kvs"

fun json_decode :: "json \<Rightarrow> py_dict list \<Rightarrow> py_value \<times> py_dict list"
  and json_decode_list :: "json list \<Rightarrow> py_dict list \<Rightarrow> py_value list \<times> py_dict list"
  and json_decode_items :: "(string \<times> json) list \<Rightarrow> py_dict list \<Rightarrow> py_dict \<times> py_dict list"
  where
  "json_decode JNull ds = (PNone, ds)"
| "json_decode (JBool b) ds = (PBool b, ds)"
| "json_decode (JInt i) ds = (PInt i, ds)"
| "json_decode (JFloat x) ds = (PFloat x, ds)"
| "json_decode (JStr s) ds = (PStr s, ds)"
| "json_decode (JArr js) ds =
     (case json_decode_list js ds of (vs, ds') \<Rightarrow> (PList vs, ds'))"
| "json_decode (JObj kjs) ds =
     (case json_decode_items kjs ds of
        (kvs, ds') \<Rightarrow> (PDict (length ds'), ds' @ [dict_of_pairs kvs]))"
| "json_decode_list [] ds = ([], ds)"
| "json_decode_list (j # js) ds =
     (case json_decode j ds of
        (v, ds1) \<Rightarrow> (case json_decode_list js ds1 of (vs, ds2) \<Rightarrow> (v # vs, ds2)))"
| "json_decode_items [] ds = ([], ds)"
| "json_decode_items (kj # kjs) ds =
     (case json_decode (snd kj) ds of
        (v, ds1) \<Rightarrow>
          (case json_decode_items kjs ds1 of (kvs, ds2) \<Rightarrow> ((fst kj, v) # kvs, ds2)))"

definition json_loads :: "json \<Rightarrow> py_value py" where
  "json_loads j h =
     (case json_decode j (dicts h) of (v, ds) \<Rightarrow> (Inr v, h\<lparr>dicts := ds\<rparr>))"

text \<open>
  The truth value of an object, as \<open>or\<close> reads it. \<open>x or {}\<close> is \<open>x\<close> when \<open>x\<close> is
  true and a new empty dictionary otherwise.
\<close>

definition truthy :: "py_value \<Rightarrow> bool py" where
  "truthy v =
     (case v of
        PNone \<Rightarrow> py_return False
      | PBool b \<Rightarrow> py_return b
      | PInt i \<Rightarrow> py_return (i \<noteq> 0)
      | PFloat x \<Rightarrow> py_return (x \<noteq> 0)
      | PStr s \<Rightarrow> py_return (s \<noteq> [])
      | PTuple vs \<Rightarrow> py_return (vs \<noteq> [])
      | PList vs \<Rightarrow> py_return (vs \<noteq> [])
      | PDict a \<Rightarrow> py_bind (get_dict a) (\<lambda>d. py_return (d \<noteq> [])))"

definition or_empty_dict :: "py_value \<Rightarrow> py_value py" where
  "or_empty_dict v =
     py_bind (truthy v) (\<lambda>t.
       if t then py_return v else py_bind (new_dict []) (\<lambda>a. py_return (PDict a)))"

text \<open>
  The archive \<open>np.savez_compressed\<close> writes: the volume, the spacing as a float32 array
  of length 3 (its element type and its three elements), and the metadata as JSON. The file system is a map from the text of a
  path to the archive stored there; directories and permissions are not modelled.
  \<open>raw_loads\<close> counts the invocations of the raw loader.
\<close>

record npz =
  npz_data :: "rat ndarray"
  npz_spacing :: "dtype \<times> spacing3d"
  npz_metadata_json :: json

record world =
  heap :: py_heap
  files :: "string \<rightharpoonup> npz"
  raw_loads :: nat

type_synonym 'a io = "('a, world) run"

definition in_heap :: "'a py \<Rightarrow> 'a io" where
  "in_heap m w = (case m (heap w) of (r, h') \<Rightarrow> (r, w\<lparr>heap := h'\<rparr>))"

definition float32_triple :: "spacing3d \<Rightarrow> spacing3d" where
  "float32_triple s = (case s of (z, y, x) \<Rightarrow> (to_float32 z, to_float32 y, to_float32 x))"

text \<open>
  \<open>np.savez_compressed\<close> writes to the path it is given when that ends in \<open>.npz\<close>,
  and to the path with \<open>.npz\<close> appended otherwise.
\<close>

definition npz_file :: "string \<Rightarrow> string" where
  "npz_file p = (if drop (length p - 4) p = ''.npz'' then p else p @ ''.npz'')"

definition write_npz :: "string \<Rightarrow> npz \<Rightarrow> unit io" where
  "write_npz cache_path z w = (Inr (), w\<lparr>files := (files w)(npz_file cache_path \<mapsto> z)\<rparr>)"

definition save_cached_volume :: "ct_volume \<Rightarrow> string \<Rightarrow> unit io" where
  "save_cached_volume ct cache_path =
     py_bind (in_heap (py_bind (or_empty_dict (metadata ct)) json_dumps)) (\<lambda>metadata_json.
     py_bind (in_heap (py_bind (astype_float32 (data ct)) get_array)) (\<lambda>a.
       write_npz cache_path
         \<lparr>npz_data = a, npz_spacing = (Float32, float32_triple (spacing ct)),
          npz_metadata_json = metadata_json\<rparr>))"

definition as_float32 :: "rat ndarray \<Rightarrow> rat ndarray" where
  "as_float32 a =
     (if dtype a = Float32 then a
      else a\<lparr>dtype := Float32, elems := map to_float32 (elems a)\<rparr>)"

definition spacing_as_float32 :: "dtype \<times> spacing3d \<Rightarrow> spacing3d" where
  "spacing_as_float32 a = (if fst a = Float32 then snd a else float32_triple (snd a))"

definition load_cached_volume :: "string \<Rightarrow> ct_volume io" where
  "load_cached_volume cache_path w =
     (case files w cache_path of
        None \<Rightarrow> (Inl (FileNotFoundError cache_path), w)
      | Some z \<Rightarrow>
          in_heap
            (py_bind (new_array (as_float32 (npz_data z))) (\<lambda>d.
             py_bind (json_loads (npz_metadata_json z)) (\<lambda>md.
             py_return \<lparr>data = d, spacing = spacing_as_float32 (npz_spacing z), metadata = md\<rparr>)))
            w)"

text \<open>
  Paths are POSIX paths, as texts. \<open>dir / name\<close> is \<open>name\<close> when that is absolute or
  \<open>dir\<close> is empty, and the two with a separator between them otherwise; the name of a
  path is what follows its last separator. Redundant separators and dots in a directory
  text are kept as they are written.
\<close>

definition path_join :: "string \<Rightarrow> string \<Rightarrow> string" where
  "path_join dir name =
     (case name of
        [] \<Rightarrow> dir
      | c # _ \<Rightarrow> if c = CHR ''/'' \<or> dir = [] then name else dir @ ''/'' @ name)"

definition path_name :: "string \<Rightarrow> string" where
  "path_name p = rev (takeWhile (\<lambda>c. c \<noteq> CHR ''/'') (rev p))"

definition path_parent :: "string \<Rightarrow> string" where
  "path_parent p = rev (tl (dropWhile (\<lambda>c. c \<noteq> CHR ''/'') (rev p)))"

text \<open>\<open>cache_key.replace("/", "_")\<close> and \<open>_cache_path_for_key\<close>.\<close>

definition safe_key :: "string \<Rightarrow> string" where
  "safe_key cache_key = map (\<lambda>c. if c = CHR ''/'' then CHR ''_'' else c) cache_key"

definition cache_path_for_key :: "string \<Rightarrow> string \<Rightarrow> string" where
  "cache_path_for_key cache_dir cache_key =
     path_join cache_dir (safe_key cache_key @ ''_normalized_resampled.npz'')"

record normalize_kwargs =
  target_spacing :: spacing3d
  hu_window :: "int \<times> int"
  apply_denoising :: bool
  denoise_sigma :: rat
  interpolation_order :: int





section \<open>Paths of a series\<close>

text \<open>
  \<open>_build_cache_key\<close> and \<open>_build_paths_for_series\<close> of \<open>run.py\<close>. A row maps a field
  to its value as \<open>str\<close> renders it; a raw path that is \<open>None\<close> is an absent field.
  \<open>expanduser().resolve()\<close> depends on the machine and is a parameter.
\<close>

definition COL_DATASET_NAME :: string where
  "COL_DATASET_NAME = ''dataset_name''"

definition build_cache_key :: "string \<Rightarrow> string \<Rightarrow> string" where
  "build_cache_key dataset_name series_uid = dataset_name @ ''__'' @ series_uid"

definition build_paths_for_series ::
  "(string \<Rightarrow> string) \<Rightarrow> string \<Rightarrow> string \<Rightarrow> (string \<rightharpoonup> string) \<Rightarrow> string \<Rightarrow> string \<Rightarrow>
     py_error + string \<times> string \<times> string \<times> string \<times> string" where
  "build_paths_for_series resolve data_root output_root row input_path_field series_uid_field =
     (let dataset_name = (case row COL_DATASET_NAME of None \<Rightarrow> ''UNKNOWN'' | Some d \<Rightarrow> d)
      in case row series_uid_field of
           None \<Rightarrow> Inl (KeyError series_uid_field)
         | Some series_uid \<Rightarrow>
             (case row input_path_field of
                None \<Rightarrow> Inl (ValueError (Row_has_no_field series_uid input_path_field))
              | Some raw_rel \<Rightarrow>
                  let raw_path = resolve (path_join data_root raw_rel);
                      dataset_root = path_join output_root dataset_name;
                      vol_cache_dir = path_join dataset_root ''volumes'';
                      mask_cache_dir = path_join dataset_root ''lung_masks'';
                      cache_key = build_cache_key dataset_name series_uid
                  in Inr (raw_path, vol_cache_dir, mask_cache_dir, dataset_name, cache_key)))"

text \<open>
  The path \<open>preprocess_single_series\<close> returns: the cache path
  \<open>normalize_and_resample_with_cache\<close> derives from the volume cache directory and the
  cache key of the series.
\<close>

definition series_cache_path ::
  "(string \<Rightarrow> string) \<Rightarrow> string \<Rightarrow> string \<Rightarrow> (string \<rightharpoonup> string) \<Rightarrow> string \<Rightarrow> string \<Rightarrow>
     py_error + string" where
  "series_cache_path resolve data_root output_root row input_path_field series_uid_field =
     (case build_paths_for_series resolve data_root output_root row input_path_field
             series_uid_field of
        Inl e \<Rightarrow> Inl e
      | Inr (raw_path, vol_cache_dir, mask_cache_dir, dataset_name, cache_key) \<Rightarrow>
          Inr (cache_path_for_key vol_cache_dir cache_key))"

section \<open>Lung segmentation\<close>

text \<open>
  \<open>LungSegmentationConfig\<close> and \<open>segment_lung\<close> of \<open>segment_lung.py\<close>. Voxels and
  the threshold are compared by their exact values; NumPy compares a float32 volume with
  the threshold rounded to float32, which is the same comparison whenever the threshold
  is a float32 value, as the default -320 is.
\<close>

record lung_segmentation_config =
  hu_threshold :: rat
  min_component_size :: int
  num_components_to_keep :: int
  closing_iterations :: int
  fill_holes :: bool

definition default_config :: lung_segmentation_config where
  "default_config =
     \<lparr>hu_threshold = - 320, min_component_size = 10000, num_components_to_keep = 2,
      closing_iterations = 2, fill_holes = True\<rparr>"

definition zeros_like :: "'a ndarray \<Rightarrow> bool ndarray" where
  "zeros_like a = \<lparr>dtype = Bool, shape = shape a, elems = replicate (length (elems a)) False\<rparr>"

text \<open>\<open>np.bincount\<close>: how often each value from 0 to the largest one occurs.\<close>

definition bincount :: "nat list \<Rightarrow> nat list" where
  "bincount xs =
     (if xs = [] then [] else map (count_list xs) [0..<Suc (foldr max xs 0)])"

text \<open>
  \<open>np.argsort\<close>: the indices in ascending order of their values. NumPy does not fix the
  order of indices with equal values; the model takes them in ascending order.
\<close>

definition argsort :: "nat list \<Rightarrow> nat list" where
  "argsort xs = sort_key (\<lambda>i. xs ! i) [0..<length xs]"

text \<open>The slice \<open>xs[i:]\<close>, with Python's reading of a negative or too large start.\<close>

definition slice_from :: "int \<Rightarrow> 'a list \<Rightarrow> 'a list" where
  "slice_from i xs =
     (let n = int (length xs);
          j = (if i < 0 then max (n + i) 0 else min i n)
      in drop (nat j) xs)"

definition isin :: "nat ndarray \<Rightarrow> nat list \<Rightarrow> bool ndarray" where
  "isin a ls = \<lparr>dtype = Bool, shape = shape a, elems = map (\<lambda>l. l \<in> set ls) (elems a)\<rparr>"

text \<open>
  The loop over the axial slices: slice \<open>z\<close> of the mask is the two-dimensional array of
  its elements from \<open>z * n\<close> on, where \<open>n\<close> is the size of a slice.
\<close>

definition axial_slice :: "bool ndarray \<Rightarrow> nat \<Rightarrow> bool ndarray" where
  "axial_slice m z =
     (let n = prod_list (tl (shape m))
      in \<lparr>dtype = dtype m, shape = tl (shape m), elems = take n (drop (z * n) (elems m))\<rparr>)"

definition fill_slices :: "scipy_ndimage \<Rightarrow> bool ndarray \<Rightarrow> py_error + bool ndarray" where
  "fill_slices lib lung_mask =
     (case shape lung_mask of
        [] \<Rightarrow> Inl IndexError
      | nz # _ \<Rightarrow>
          Inr \<lparr>dtype = dtype lung_mask, shape = shape lung_mask,
               elems = concat (map (\<lambda>z. elems (nd_binary_fill_holes lib (axial_slice lung_mask z)))
                                [0..<nz])\<rparr>)"

text \<open>
  The removal of the small components: the labels whose size is below the minimum
  (label 0 among them, its size being 0) are set to 0 in the label array, and their
  sizes to 0.
\<close>

definition remove_small :: "int \<Rightarrow> nat ndarray \<times> nat list \<Rightarrow> nat ndarray \<times> nat list" where
  "remove_small min_size ls =
     (case ls of (labeled, component_sizes) \<Rightarrow>
        if 0 < min_size then
          let too_small = filter (\<lambda>i. int (component_sizes ! i) < min_size)
                            [0..<length component_sizes]
          in if too_small \<noteq> [] then
               (labeled\<lparr>elems := map (\<lambda>l. if l \<in> set too_small then 0 else l)
                                     (elems labeled)\<rparr>,
                map (\<lambda>i. if i \<in> set too_small then 0 else component_sizes ! i)
                  [0..<length component_sizes])
             else (labeled, component_sizes)
        else (labeled, component_sizes))"

definition post_process ::
  "scipy_ndimage \<Rightarrow> lung_segmentation_config \<Rightarrow> bool ndarray \<Rightarrow> py_error + bool ndarray" where
  "post_process lib config lung_mask =
     (let closed = (if 0 < closing_iterations config
                    then nd_binary_closing lib lung_mask (closing_iterations config)
                    else lung_mask)
      in case (if fill_holes config then fill_slices lib closed else Inr closed) of
           Inl e \<Rightarrow> Inl e
         | Inr m \<Rightarrow> Inr (m\<lparr>dtype := Bool\<rparr>))"

definition segment_lung ::
  "scipy_ndimage \<Rightarrow> rat ndarray \<Rightarrow> lung_segmentation_config \<Rightarrow> py_error + bool ndarray" where
  "segment_lung lib volume_hu config =
     (if length (shape volume_hu) \<noteq> 3
      then Inl (ValueError (Expected_3D_volume (shape volume_hu)))
      else
        let thresh = \<lparr>dtype = Bool, shape = shape volume_hu,
                      elems = map (\<lambda>x. x < hu_threshold config) (elems volume_hu)\<rparr>
        in if \<not> list_ex id (elems thresh) then Inr (zeros_like thresh)
           else
             case nd_label lib thresh of (labeled, num_features) \<Rightarrow>
               if num_features = 0 then Inr (zeros_like thresh)
               else
                 let counts = bincount (elems labeled)
                 in if counts = [] then Inl IndexError
                    else
                      case remove_small (min_component_size config) (labeled, counts[0 := 0]) of
                        (labeled', component_sizes) \<Rightarrow>
                          if list_all (\<lambda>s. s = 0) component_sizes then Inr (zeros_like thresh)
                          else
                            let keep_labels =
                                  slice_from (- num_components_to_keep config)
                                    (argsort component_sizes)
                            in post_process lib config (isin labeled' keep_labels))"

section \<open>Notions used in the statements\<close>

text \<open>The thresholded volume, and the all-false mask of a volume's shape.\<close>

definition threshold :: "rat ndarray \<Rightarrow> lung_segmentation_config \<Rightarrow> bool ndarray" where
  "threshold volume_hu config =
     \<lparr>dtype = Bool, shape = shape volume_hu,
      elems = map (\<lambda>x. x < hu_threshold config) (elems volume_hu)\<rparr>"

definition all_false :: "rat ndarray \<Rightarrow> bool ndarray" where
  "all_false v = \<lparr>dtype = Bool, shape = shape v, elems = replicate (length (elems v)) False\<rparr>"

text \<open>
  What the library guarantees about shapes: labelling and closing return an array of the
  shape and size of their argument.
\<close>

definition keeps_shape :: "scipy_ndimage \<Rightarrow> bool" where
  "keeps_shape lib \<longleftrightarrow>
     (\<forall>t. shape (fst (nd_label lib t)) = shape t
          \<and> length (elems (fst (nd_label lib t))) = length (elems t))
     \<and> (\<forall>m n. shape (nd_binary_closing lib m n) = shape m)"

text \<open>The array with every element clipped to the HU window, as float32 holds the bounds.\<close>

definition clipped :: "int \<Rightarrow> int \<Rightarrow> rat ndarray \<Rightarrow> rat ndarray" where
  "clipped hu_min hu_max a =
     a\<lparr>elems := map (clip (to_float32 (of_int hu_min)) (to_float32 (of_int hu_max))) (elems a)\<rparr>"

text \<open>A computation that leaves every array of the heap in place and as it is.\<close>

definition grows :: "'a py \<Rightarrow> bool" where
  "grows m \<longleftrightarrow> (\<forall>h r h'. m h = (r, h') \<longrightarrow> (\<exists>ys. arrays h' = arrays h @ ys))"

text \<open>A computation that leaves every dictionary of the heap as it is.\<close>

definition keeps_dicts :: "'a py \<Rightarrow> bool" where
  "keeps_dicts m \<longleftrightarrow> (\<forall>h r h'. m h = (r, h') \<longrightarrow> dicts h' = dicts h)"

text \<open>
  A JSON document of nesting depth at most \<open>n\<close> whose objects have distinct keys, and a
  store whose dictionaries have distinct keys, as Python's dictionaries have.
\<close>

fun json_fits :: "nat \<Rightarrow> json \<Rightarrow> bool" where
  "json_fits 0 j = False"
| "json_fits (Suc n) (JArr js) = list_all (json_fits n) js"
| "json_fits (Suc n) (JObj kjs) =
     (distinct (map fst kjs) \<and> list_all (\<lambda>kj. json_fits n (snd kj)) kjs)"
| "json_fits (Suc n) j = True"

definition dicts_distinct :: "py_dict list \<Rightarrow> bool" where
  "dicts_distinct ds = list_all (\<lambda>d. distinct (map fst d)) ds"

text \<open>The JSON document \<open>json.dumps\<close> writes for the metadata of a volume, if any.\<close>

definition metadata_json :: "world \<Rightarrow> ct_volume \<Rightarrow> json option" where
  "metadata_json w ct =
     json_encode (recursion_limit (heap w)) (dicts (heap w)) (metadata ct)"


text \<open>The dataset name \<open>_build_paths_for_series\<close> reads from a row.\<close>

definition dataset_of :: "(string \<rightharpoonup> string) \<Rightarrow> string" where
  "dataset_of row = (case row COL_DATASET_NAME of None \<Rightarrow> ''UNKNOWN'' | Some d \<Rightarrow> d)"

section \<open>Concrete inputs\<close>

text \<open>
  A stand-in for \<open>scipy.ndimage\<close> on the inputs below: it labels the foreground as one
  component, which is what the library returns when the foreground is connected, and
  zooms by the factors (1, 1, 1) only, where the library returns the values of its input.
  Closing and hole filling are not reached on these inputs.
\<close>

definition single_component_ndimage :: scipy_ndimage where
  "single_component_ndimage =
     \<lparr>nd_gaussian_filter = (\<lambda>a sigma. Inl LibraryError),
      nd_zoom = (\<lambda>a zoom_factors order.
                   if zoom_factors = (1, 1, 1) then Inr a else Inl LibraryError),
      nd_label = (\<lambda>t. (\<lparr>dtype = Int32, shape = shape t,
                           elems = map (\<lambda>b. if b then 1 else 0) (elems t)\<rparr>,
                         if list_ex id (elems t) then 1 else 0)),
      nd_binary_closing = (\<lambda>m n. m),
      nd_binary_fill_holes = (\<lambda>m. m)\<rparr>"

text \<open>One voxel of lung next to two voxels of soft tissue.\<close>

definition one_lung_volume :: "rat ndarray" where
  "one_lung_volume = \<lparr>dtype = Float32, shape = [1, 1, 3], elems = [- 800, 40, 40]\<rparr>"

definition keep_two_config :: lung_segmentation_config where
  "keep_two_config =
     \<lparr>hu_threshold = - 320, min_component_size = 1, num_components_to_keep = 2,
      closing_iterations = 0, fill_holes = False\<rparr>"

text \<open>A heap with the same three voxels as a float32 array and as an int16 array.\<close>

definition window_heap :: py_heap where
  "window_heap =
     \<lparr>arrays = [\<lparr>dtype = Float32, shape = [1, 1, 3], elems = [- 1500, 0, 800]\<rparr>,
                \<lparr>dtype = Int16, shape = [1, 1, 3], elems = [- 1500, 0, 800]\<rparr>],
      dicts = [], recursion_limit = 1000\<rparr>"

text \<open>
  A heap with a volume and the caller's metadata: a dictionary at address 0 whose
  \<open>preprocessing\<close> entry is the dictionary at address 1. The second heap is the first
  after \<open>normalize_and_resample\<close>.
\<close>

definition metadata_heap :: py_heap where
  "metadata_heap =
     \<lparr>arrays = [\<lparr>dtype = Float32, shape = [1, 1, 3], elems = [- 1500, 0, 800]\<rparr>],
      dicts = [[(''series_uid'', PStr ''s1''),
                (''spacing_mm'', PTuple [PFloat (5 / 2), PFloat 1, PFloat 1]),
                (''preprocessing'', PDict 1)],
               [(''lung_mask'', PStr ''saved'')]],
      recursion_limit = 1000\<rparr>"

definition metadata_heap_after :: py_heap where
  "metadata_heap_after =
    \<lparr>arrays = [\<lparr>dtype = Float32, shape = [1, 1, 3], elems = [- 1000, 0, 400]\<rparr>,
               \<lparr>dtype = Float32, shape = [1, 1, 3], elems = [- 1000, 0, 400]\<rparr>],
     dicts = [[(''series_uid'', PStr ''s1''),
               (''spacing_mm'', PTuple [PFloat (5 / 2), PFloat 1, PFloat 1]),
               (''preprocessing'', PDict 1)],
              [(''lung_mask'', PStr ''saved''), (''normalize_resample'', PDict 4)],
              [(''series_uid'', PStr ''s1''),
               (''spacing_mm'', PTuple [PFloat 1, PFloat 1, PFloat 1]),
               (''preprocessing'', PDict 1)],
              [],
              [(''hu_window'', PTuple [PFloat (- 1000), PFloat 400]),
               (''apply_denoising'', PBool False),
               (''denoise_sigma'', PFloat (3 / 4)),
               (''target_spacing_mm'', PTuple [PFloat 1, PFloat 1, PFloat 1]),
               (''interpolation_order'', PInt 1)]],
     recursion_limit = 1000\<rparr>"

text \<open>
  A world with one float32 volume and its metadata, and a volume of spacing
  (2.5, 0.8, 0.8) on them; a world with an empty cache, and a raw loader that builds a
  volume and its metadata anew at every invocation.
\<close>

definition cached_world :: world where
  "cached_world =
     \<lparr>heap = \<lparr>arrays = [\<lparr>dtype = Float32, shape = [1, 1, 3], elems = [- 1000, 0, 400]\<rparr>],
              dicts = [[(''series_uid'', PStr ''abc''),
                        (''spacing_mm'', PTuple [PFloat (5 / 2), PFloat double_0_8,
                                                 PFloat double_0_8])]],
              recursion_limit = 1000\<rparr>,
      files = Map.empty, raw_loads = 0\<rparr>"

definition thick_slice_volume :: ct_volume where
  "thick_slice_volume =
     \<lparr>data = 0, spacing = (5 / 2, double_0_8, double_0_8), metadata = PDict 0\<rparr>"



definition nlst_row :: "string \<rightharpoonup> string" where
  "nlst_row = [''dataset_name'' \<mapsto> ''nlst'', ''series_uid'' \<mapsto> ''s1'',
               ''raw_image_path'' \<mapsto> ''nlst/s1.nii.gz'']"

section \<open>Zoom factors and the validation of spacings\<close>

text \<open>
  C9. For a positive target spacing \<open>compute_zoom_factors\<close> returns, axis by axis, the
  quotient of the current spacing by the target spacing, rounded to a double as Python's
  division rounds it; for the current spacing (2.5, 0.8, 0.8) and the target
  (1.0, 1.0, 1.0) the factors are exactly (2.5, 0.8, 0.8).
\<close>

theorem compute_zoom_factors_quotients:
  "(0 < tz \<and> 0 < ty \<and> 0 < tx \<longrightarrow>
      compute_zoom_factors (sz, sy, sx) (tz, ty, tx)
        = Inr (to_float64 (sz / tz), to_float64 (sy / ty), to_float64 (sx / tx)))
   \<and> compute_zoom_factors (5 / 2, double_0_8, double_0_8) (1, 1, 1)
        = Inr (5 / 2, double_0_8, double_0_8)"
proof -
  have a: "float_div (5 / 2) 1 = 5 / 2"
    by code_simp
  have b: "float_div double_0_8 1 = double_0_8"
    by code_simp
  have c: "compute_zoom_factors (5 / 2, double_0_8, double_0_8) (1, 1, 1)
        = Inr (5 / 2, double_0_8, double_0_8)"
    by (simp add: a b)
  show ?thesis
    using c by (simp add: float_div_def)
qed

text \<open>
  The spacing (1, 3, 1) over the target (3, 4, 8): a third is rounded to the nearest
  double, three quarters and an eighth are exact.
\<close>

theorem compute_zoom_factors_quotients_witness:
  "(0::rat) < 3 \<and> (0::rat) < 4 \<and> (0::rat) < 8
   \<and> compute_zoom_factors (1, 3, 1) (3, 4, 8)
      = Inr (6004799503160661 / 18014398509481984, 3 / 4, 1 / 8)"
proof -
  have a: "to_float64 (1 / 3) = 6004799503160661 / 18014398509481984"
    by code_simp
  have b: "to_float64 (3 / 4) = 3 / 4"
    by code_simp
  have c: "to_float64 (1 / 8) = 1 / 8"
    by code_simp
  show ?thesis
    using compute_zoom_factors_quotients [of 3 4 8 1 3 1] by (simp add: a b c)
qed

lemma isl_bind_right: "(\<And>x h. isl (fst (f x h))) \<Longrightarrow> isl (fst (py_bind m f h))"
  by (auto simp: py_bind_def split: prod.splits sum.splits)

lemma isl_bind_left:
  assumes "\<And>h. isl (fst (m h))"
  shows "isl (fst (py_bind m f h))"
proof -
  obtain r h' where mh: "m h = (r, h')" by (cases "m h")
  with assms [of h] have "isl r" by simp
  then show ?thesis using mh by (cases r) (simp_all add: py_bind_def)
qed

lemma resample_bad_target:
  assumes "tz \<le> 0 \<or> ty \<le> 0 \<or> tx \<le> 0"
  shows "resample_to_spacing lib v cur (tz, ty, tx) ord h =
           (Inl (ValueError (Target_spacing_must_be_positive (tz, ty, tx))), h)"
  using assms by (cases cur) (auto simp: resample_to_spacing_def py_raise_def)


text \<open>
  C7, as amended. A target spacing with a zero or negative component makes
  \<open>compute_zoom_factors\<close> and \<open>resample_to_spacing\<close> raise the ValueError, with the heap
  untouched, and \<open>normalize_and_resample\<close> fail. The current spacing is not checked: for
  a positive target spacing the factors are the quotients whatever the current spacing
  is, and \<open>resample_to_spacing\<close> returns whenever the library's zoom returns on them.
\<close>

theorem spacing_validation:
  "(tz \<le> 0 \<or> ty \<le> 0 \<or> tx \<le> 0 \<longrightarrow>
      compute_zoom_factors cur (tz, ty, tx)
        = Inl (ValueError (Target_spacing_must_be_positive (tz, ty, tx)))
      \<and> resample_to_spacing lib v cur (tz, ty, tx) ord h
        = (Inl (ValueError (Target_spacing_must_be_positive (tz, ty, tx))), h)
      \<and> isl (fst (normalize_and_resample lib v cur md (tz, ty, tx) hw dn sg ord h)))
   \<and> (0 < tz \<and> 0 < ty \<and> 0 < tx \<longrightarrow>
      compute_zoom_factors (sz, sy, sx) (tz, ty, tx)
        = Inr (float_div sz tz, float_div sy ty, float_div sx tx)
      \<and> (v < length (arrays h) \<and>
         nd_zoom lib (as_float32 (arrays h ! v))
            (float_div sz tz, float_div sy ty, float_div sx tx) ord = Inr b \<longrightarrow>
         (\<exists>r h'. resample_to_spacing lib v (sz, sy, sx) (tz, ty, tx) ord h = (Inr r, h')
            \<and> arrays h' ! r = as_float32 b)))"
proof (intro conjI impI)
  assume bad: "tz \<le> 0 \<or> ty \<le> 0 \<or> tx \<le> 0"
  then show "compute_zoom_factors cur (tz, ty, tx)
        = Inl (ValueError (Target_spacing_must_be_positive (tz, ty, tx)))"
    by (cases cur) auto
  show "resample_to_spacing lib v cur (tz, ty, tx) ord h
        = (Inl (ValueError (Target_spacing_must_be_positive (tz, ty, tx))), h)"
    by (rule resample_bad_target [OF bad])
  show "isl (fst (normalize_and_resample lib v cur md (tz, ty, tx) hw dn sg ord h))"
    unfolding normalize_and_resample_def
    apply (rule isl_bind_right)
    apply (rule isl_bind_right)
    apply (rule isl_bind_left)
    apply (simp add: resample_bad_target [OF bad])
    done
next
  assume "0 < tz \<and> 0 < ty \<and> 0 < tx"
  then show "compute_zoom_factors (sz, sy, sx) (tz, ty, tx)
        = Inr (float_div sz tz, float_div sy ty, float_div sx tx)"
    by auto
next
  assume pos: "0 < tz \<and> 0 < ty \<and> 0 < tx"
    and z: "v < length (arrays h) \<and>
         nd_zoom lib (as_float32 (arrays h ! v))
            (float_div sz tz, float_div sy ty, float_div sx tx) ord = Inr b"
  then show "\<exists>r h'. resample_to_spacing lib v (sz, sy, sx) (tz, ty, tx) ord h = (Inr r, h')
            \<and> arrays h' ! r = as_float32 b"
    by (auto simp: resample_to_spacing_def astype_float32_def py_bind_def get_array_def
        py_return_def new_array_def apply_ndimage_def as_float32_def nth_append py_raise_def)
qed

theorem spacing_validation_witness:
  "compute_zoom_factors (1, 1, 1) (0, 1, 1)
     = Inl (ValueError (Target_spacing_must_be_positive (0, 1, 1)))
   \<and> isl (fst (normalize_and_resample single_component_ndimage 0 (1, 1, 1) None (0, 1, 1)
                 (- 1000, 400) False (3 / 4) 1 window_heap))
   \<and> (\<exists>r h'. resample_to_spacing single_component_ndimage 0 (1, 1, 1) (1, 1, 1) 1 window_heap
                = (Inr r, h')
            \<and> arrays h' ! r = arrays window_heap ! 0)"
proof -
  have one: "float_div 1 1 = 1"
    by code_simp
  have a: "compute_zoom_factors (1, 1, 1) (0, 1, 1)
             = Inl (ValueError (Target_spacing_must_be_positive (0, 1, 1)))
           \<and> isl (fst (normalize_and_resample single_component_ndimage 0 (1, 1, 1) None
                         (0, 1, 1) (- 1000, 400) False (3 / 4) 1 window_heap))"
    using spacing_validation [where tz = 0 and ty = 1 and tx = 1 and cur = "(1, 1, 1)"
        and lib = single_component_ndimage and v = 0 and md = None and hw = "(- 1000, 400)"
        and dn = False and sg = "3 / 4" and ord = 1 and h = window_heap]
    by simp
  have b: "\<exists>r h'. resample_to_spacing single_component_ndimage 0 (1, 1, 1) (1, 1, 1) 1
                     window_heap = (Inr r, h')
                 \<and> arrays h' ! r = arrays window_heap ! 0"
    using spacing_validation [where tz = 1 and ty = 1 and tx = 1 and sz = 1 and sy = 1
        and sx = 1 and lib = single_component_ndimage and v = 0 and ord = 1
        and h = window_heap and b = "arrays window_heap ! 0"]
    by (simp add: one single_component_ndimage_def window_heap_def as_float32_def)
  show ?thesis
    using a b by simp
qed

theorem current_spacing_unchecked_counterexample:
  "compute_zoom_factors (0, 1, 1) (1, 1, 1) = Inr (0, 1, 1)"
proof -
  have "float_div 0 1 = 0" "float_div 1 1 = 1"
    by code_simp+
  then show ?thesis
    by simp
qed

section \<open>The clamp and the caller's array\<close>

lemma growsI: "(\<And>h r h'. m h = (r, h') \<Longrightarrow> \<exists>ys. arrays h' = arrays h @ ys) \<Longrightarrow> grows m"
  by (simp add: grows_def)

lemma growsD: "grows m \<Longrightarrow> m h = (r, h') \<Longrightarrow> \<exists>ys. arrays h' = arrays h @ ys"
  by (auto simp: grows_def)

lemma grows_return [simp]: "grows (py_return x)"
  by (simp add: grows_def py_return_def)

lemma grows_raise [simp]: "grows (py_raise e)"
  by (simp add: grows_def py_raise_def)

lemma grows_bind: "grows m \<Longrightarrow> (\<And>x. grows (f x)) \<Longrightarrow> grows (py_bind m f)"
  unfolding grows_def py_bind_def
  by (fastforce split: prod.splits sum.splits)

lemma grows_get_array [simp]: "grows (get_array v)"
  by (simp add: grows_def get_array_def)

lemma grows_get_dict [simp]: "grows (get_dict v)"
  by (simp add: grows_def get_dict_def)

lemma grows_new_array [simp]: "grows (new_array a)"
  by (auto simp add: grows_def new_array_def)

lemma grows_new_dict [simp]: "grows (new_dict a)"
  by (auto simp add: grows_def new_dict_def)

lemma grows_set_item [simp]: "grows (set_item m k v)"
  by (auto simp add: grows_def set_item_def)

lemma grows_astype [simp]: "grows (astype_float32 v)"
  unfolding astype_float32_def by (intro grows_bind) simp_all

lemma grows_apply_ndimage [simp]: "grows (apply_ndimage f v)"
  unfolding apply_ndimage_def by (intro grows_bind) (simp_all split: sum.splits)

lemma grows_maybe_denoise [simp]: "grows (maybe_denoise lib v en sg)"
  unfolding maybe_denoise_def by (auto intro!: grows_bind)

lemma grows_resample [simp]: "grows (resample_to_spacing lib v c t ord)"
  unfolding resample_to_spacing_def by (auto intro!: grows_bind split: sum.splits)

lemma grows_copy_metadata [simp]: "grows (copy_metadata m)"
  unfolding copy_metadata_def by (auto intro!: grows_bind split: option.splits)

lemma grows_get_preprocessing [simp]: "grows (get_preprocessing m)"
  unfolding get_preprocessing_def by (auto intro!: grows_bind)

lemma grows_set_normalize_resample [simp]: "grows (set_normalize_resample p e)"
  unfolding set_normalize_resample_def by (auto intro!: grows_bind split: py_value.splits)

lemma clamp_hu_float32:
  assumes "v < length (arrays h)" "dtype (arrays h ! v) = Float32"
  shows "clamp_hu v lo hi h = (Inr v, h\<lparr>arrays := (arrays h)[v := clipped lo hi (arrays h ! v)]\<rparr>)"
  using assms
  by (simp add: clamp_hu_def astype_float32_def py_bind_def get_array_def py_return_def
      np_clip_out_def clipped_def)

lemma clamp_hu_other:
  assumes "v < length (arrays h)" "dtype (arrays h ! v) \<noteq> Float32"
  shows "clamp_hu v lo hi h =
     (Inr (length (arrays h)),
      h\<lparr>arrays := arrays h @ [clipped lo hi ((arrays h ! v)\<lparr>dtype := Float32, elems := map to_float32 (elems (arrays h ! v))\<rparr>)]\<rparr>)"
  using assms
  by (simp add: clamp_hu_def astype_float32_def py_bind_def get_array_def py_return_def
      np_clip_out_def clipped_def new_array_def)


lemma bind_keeps_array:
  assumes "m h = (r1, h1)" "v < length (arrays h1)" "\<And>x. grows (f x)"
  shows "arrays (snd (py_bind m f h)) ! v = arrays h1 ! v"
proof (cases r1)
  case (Inl e)
  then show ?thesis using assms(1) by (simp add: py_bind_def)
next
  case (Inr x)
  obtain r h' where fx: "f x h1 = (r, h')" by (cases "f x h1")
  from growsD [OF assms(3) fx] obtain ys where "arrays h' = arrays h1 @ ys" ..
  then show ?thesis using assms(1,2) Inr fx by (simp add: py_bind_def nth_append)
qed

lemma grows_stamp_metadata [simp]: "grows (stamp_metadata md tg hw dn sg ord)"
  unfolding stamp_metadata_def by (intro grows_bind) simp_all

lemma grows_normalize_rest:
  "grows (py_bind (maybe_denoise lib v1 dn sg) (\<lambda>v2.
     py_bind (resample_to_spacing lib v2 sp tg ord) (\<lambda>v3.
     py_bind (stamp_metadata md tg hw dn sg ord) (\<lambda>meta.
     py_bind (astype_float32 v3) (\<lambda>v4.
     py_return \<lparr>data = v4, spacing = tg, metadata = PDict meta\<rparr>)))))"
  by (intro grows_bind) simp_all

lemma normalize_keeps_array:
  assumes "clamp_hu v (fst hw) (snd hw) h = (r1, h1)" "w < length (arrays h1)"
  shows "arrays (snd (normalize_and_resample lib v sp md tg hw dn sg ord h)) ! w
           = arrays h1 ! w"
  unfolding normalize_and_resample_def
  by (rule bind_keeps_array [where m = "clamp_hu v (fst hw) (snd hw)" and h = h, OF assms])
    (rule grows_normalize_rest)

text \<open>
  C10. After \<open>clamp_hu\<close>, and after \<open>normalize_and_resample\<close> whether it returns or
  raises, the caller's array holds its clipped values when its element type is float32,
  and is what it was when its element type is another one.
\<close>

theorem clamp_in_place:
  assumes "volume < length (arrays h)"
  shows "arrays (snd (clamp_hu volume hu_min hu_max h)) ! volume =
           (if dtype (arrays h ! volume) = Float32
            then clipped hu_min hu_max (arrays h ! volume) else arrays h ! volume)
       \<and> arrays (snd (normalize_and_resample lib volume sp md tg (hu_min, hu_max) dn sg ord h))
             ! volume =
           (if dtype (arrays h ! volume) = Float32
            then clipped hu_min hu_max (arrays h ! volume) else arrays h ! volume)"
proof (cases "dtype (arrays h ! volume) = Float32")
  case True
  note c = clamp_hu_float32 [OF assms True, of hu_min hu_max]
  have "arrays (snd (normalize_and_resample lib volume sp md tg (hu_min, hu_max) dn sg ord h))
             ! volume = clipped hu_min hu_max (arrays h ! volume)"
    using normalize_keeps_array [of volume "(hu_min, hu_max)", unfolded fst_conv snd_conv, OF c]
      assms by simp
  then show ?thesis using True assms by (simp add: c)
next
  case False
  note c = clamp_hu_other [OF assms False, of hu_min hu_max]
  have "arrays (snd (normalize_and_resample lib volume sp md tg (hu_min, hu_max) dn sg ord h))
             ! volume = arrays h ! volume"
    using normalize_keeps_array [of volume "(hu_min, hu_max)", unfolded fst_conv snd_conv, OF c]
      assms by (simp add: nth_append)
  then show ?thesis using False assms by (simp add: c nth_append)
qed

theorem clamp_in_place_witness:
  "0 < length (arrays window_heap)
   \<and> arrays (snd (clamp_hu 0 (- 1000) 400 window_heap)) ! 0
       = \<lparr>dtype = Float32, shape = [1, 1, 3], elems = [- 1000, 0, 400]\<rparr>
   \<and> arrays (snd (normalize_and_resample single_component_ndimage 0 (1, 1, 1) None (1, 1, 1)
                    (- 1000, 400) False (3 / 4) 1 window_heap)) ! 0
       = \<lparr>dtype = Float32, shape = [1, 1, 3], elems = [- 1000, 0, 400]\<rparr>
   \<and> arrays (snd (clamp_hu 1 (- 1000) 400 window_heap)) ! 1
       = \<lparr>dtype = Int16, shape = [1, 1, 3], elems = [- 1500, 0, 800]\<rparr>"
proof -
  have lo: "to_float32 (- 1000) = - 1000" and hi: "to_float32 400 = 400"
    by code_simp+
  have l0: "0 < length (arrays window_heap)" and l1: "1 < length (arrays window_heap)"
    by (simp_all add: window_heap_def)
  show ?thesis
    using clamp_in_place [OF l0, of "- 1000" 400 single_component_ndimage "(1, 1, 1)" None
        "(1, 1, 1)" False "3 / 4" 1]
      clamp_in_place [OF l1, of "- 1000" 400 single_component_ndimage "(1, 1, 1)" None
        "(1, 1, 1)" False "3 / 4" 1]
    by (simp add: window_heap_def clipped_def clip_def lo hi)
qed

section \<open>The metadata update\<close>

lemma keeps_dictsD: "m h = (r, h') \<Longrightarrow> keeps_dicts m \<Longrightarrow> dicts h' = dicts h"
  by (auto simp: keeps_dicts_def)

lemma keeps_dicts_return [simp]: "keeps_dicts (py_return x)"
  by (simp add: keeps_dicts_def py_return_def)

lemma keeps_dicts_raise [simp]: "keeps_dicts (py_raise e)"
  by (simp add: keeps_dicts_def py_raise_def)

lemma keeps_dicts_bind:
  "keeps_dicts m \<Longrightarrow> (\<And>x. keeps_dicts (f x)) \<Longrightarrow> keeps_dicts (py_bind m f)"
  unfolding keeps_dicts_def py_bind_def
  by (fastforce split: prod.splits sum.splits)

lemma keeps_dicts_get_array [simp]: "keeps_dicts (get_array v)"
  by (auto simp: keeps_dicts_def get_array_def split: if_splits)

lemma keeps_dicts_new_array [simp]: "keeps_dicts (new_array a)"
  by (auto simp add: keeps_dicts_def new_array_def)

lemma keeps_dicts_astype [simp]: "keeps_dicts (astype_float32 v)"
  unfolding astype_float32_def by (intro keeps_dicts_bind) simp_all

lemma keeps_dicts_clip [simp]: "keeps_dicts (np_clip_out v lo hi)"
  unfolding np_clip_out_def
  by (intro keeps_dicts_bind keeps_dicts_get_array) (auto simp: keeps_dicts_def)

lemma keeps_dicts_apply_ndimage [simp]: "keeps_dicts (apply_ndimage f v)"
  unfolding apply_ndimage_def by (intro keeps_dicts_bind) (simp_all split: sum.splits)

lemma keeps_dicts_clamp_hu [simp]: "keeps_dicts (clamp_hu v lo hi)"
  unfolding clamp_hu_def by (intro keeps_dicts_bind) simp_all

lemma keeps_dicts_maybe_denoise [simp]: "keeps_dicts (maybe_denoise lib v en sg)"
  unfolding maybe_denoise_def by (auto intro!: keeps_dicts_bind)

lemma keeps_dicts_resample [simp]: "keeps_dicts (resample_to_spacing lib v c t ord)"
  unfolding resample_to_spacing_def by (auto intro!: keeps_dicts_bind split: sum.splits)

lemma bind_InrE:
  assumes "py_bind m f h = (Inr y, h')"
  obtains x h1 where "m h = (Inr x, h1)" "f x h1 = (Inr y, h')"
  using assms by (auto simp: py_bind_def split: prod.splits sum.splits)

lemma normalize_returns:
  assumes "normalize_and_resample lib v sp md tg hw dn sg ord h = (Inr ct, h')"
  obtains h3 h4 meta where "dicts h3 = dicts h"
    "stamp_metadata md tg hw dn sg ord h3 = (Inr meta, h4)"
    "dicts h' = dicts h4" "metadata ct = PDict meta"
proof -
  from assms obtain v1 h1 v2 h2 v3 h3 meta h4 v4 where
    s1: "clamp_hu v (fst hw) (snd hw) h = (Inr v1, h1)"
    and s2: "maybe_denoise lib v1 dn sg h1 = (Inr v2, h2)"
    and s3: "resample_to_spacing lib v2 sp tg ord h2 = (Inr v3, h3)"
    and s4: "stamp_metadata md tg hw dn sg ord h3 = (Inr meta, h4)"
    and s5: "astype_float32 v3 h4 = (Inr v4, h')"
    and ct: "ct = \<lparr>data = v4, spacing = tg, metadata = PDict meta\<rparr>"
    unfolding normalize_and_resample_def
    by (elim bind_InrE) (auto simp: py_return_def)
  have "dicts h1 = dicts h"
    using keeps_dicts_clamp_hu s1 unfolding keeps_dicts_def by blast
  moreover have "dicts h2 = dicts h1"
    using keeps_dicts_maybe_denoise s2 unfolding keeps_dicts_def by blast
  moreover have "dicts h3 = dicts h2"
    using keeps_dicts_resample s3 unfolding keeps_dicts_def by blast
  moreover have "dicts h' = dicts h4"
    using keeps_dicts_astype s5 unfolding keeps_dicts_def by blast
  ultimately show ?thesis using that s4 ct by simp
qed

lemma stamp_metadata_new_preprocessing:
  assumes "m < length (dicts h)" "map_of (dicts h ! m) ''preprocessing'' = None"
  shows "stamp_metadata (Some m) tg hw dn sg ord h =
     (Inr (length (dicts h)),
      h\<lparr>dicts := dicts h @
          [AList.update ''preprocessing'' (PDict (Suc (length (dicts h))))
             (AList.update ''spacing_mm'' (float_tuple tg) (dicts h ! m)),
           [(''normalize_resample'', PDict (Suc (Suc (length (dicts h)))))],
           normalize_resample_record tg hw dn sg ord]\<rparr>)"
  using assms
  by (simp add: stamp_metadata_def copy_metadata_def get_preprocessing_def
      set_normalize_resample_def py_bind_def get_dict_def new_dict_def set_item_def
      py_return_def nth_append update_conv' list_update_append)

lemma stamp_metadata_old_preprocessing:
  assumes "m < length (dicts h)" "map_of (dicts h ! m) ''preprocessing'' = Some (PDict p)"
    "p < length (dicts h)"
  shows "stamp_metadata (Some m) tg hw dn sg ord h =
     (Inr (length (dicts h)),
      h\<lparr>dicts := (dicts h)[p := AList.update ''normalize_resample''
                                   (PDict (Suc (Suc (length (dicts h))))) (dicts h ! p)] @
          [AList.update ''preprocessing'' (PDict p)
             (AList.update ''spacing_mm'' (float_tuple tg) (dicts h ! m)),
           [],
           normalize_resample_record tg hw dn sg ord]\<rparr>)"
  using assms
  by (simp add: stamp_metadata_def copy_metadata_def get_preprocessing_def
      set_normalize_resample_def py_bind_def get_dict_def new_dict_def set_item_def
      py_return_def nth_append update_conv' list_update_append)

lemma stamp_metadata_not_a_dict:
  assumes "m < length (dicts h)" "map_of (dicts h ! m) ''preprocessing'' = Some v"
    "\<forall>p. v \<noteq> PDict p"
  shows "fst (stamp_metadata (Some m) tg hw dn sg ord h) = Inl TypeError"
  using assms
  by (cases v) (simp_all add: stamp_metadata_def copy_metadata_def get_preprocessing_def
      set_normalize_resample_def py_bind_def get_dict_def new_dict_def set_item_def
      py_return_def nth_append update_conv' list_update_append py_raise_def)

lemma stamp_metadata_invalid:
  assumes "\<not> m < length (dicts h)"
  shows "fst (stamp_metadata (Some m) tg hw dn sg ord h) = Inl InvalidReference"
  using assms
  by (simp add: stamp_metadata_def copy_metadata_def py_bind_def get_dict_def)


text \<open>
  C4, as amended. When \<open>normalize_and_resample\<close> returns, the metadata of the result is a
  new dictionary. Its keys are the caller's keys and \<open>spacing_mm\<close> and \<open>preprocessing\<close>;
  every entry of the caller's other than \<open>spacing_mm\<close> has its value; \<open>spacing_mm\<close> is the
  target spacing; \<open>preprocessing\<close> is a dictionary (the caller's one when there was one)
  whose \<open>normalize_resample\<close> entry is the new record and whose other entries are what
  they were; and every other dictionary of the heap is unchanged.
\<close>

theorem stamping_keeps_other_entries:
  assumes run: "normalize_and_resample lib volume sp (Some m) tg hw dn sg ord h = (Inr ct, h')"
    and closed: "\<forall>p. map_of (dicts h ! m) ''preprocessing'' = Some (PDict p) \<longrightarrow> p < length (dicts h)"
  shows "\<exists>meta. metadata ct = PDict meta \<and> meta \<noteq> m \<and> m < length (dicts h)
     \<and> fst ` set (dicts h' ! meta) = fst ` set (dicts h ! m) \<union> {''spacing_mm'', ''preprocessing''}
     \<and> (\<forall>k v. k \<noteq> ''spacing_mm'' \<and> map_of (dicts h ! m) k = Some v
           \<longrightarrow> map_of (dicts h' ! meta) k = Some v)
     \<and> map_of (dicts h' ! meta) ''spacing_mm'' = Some (float_tuple tg)
     \<and> (\<exists>p r. map_of (dicts h' ! meta) ''preprocessing'' = Some (PDict p)
           \<and> map_of (dicts h' ! p) ''normalize_resample'' = Some (PDict r)
           \<and> dicts h' ! r = normalize_resample_record tg hw dn sg ord
           \<and> (\<forall>k. k \<noteq> ''normalize_resample'' \<longrightarrow>
                 map_of (dicts h' ! p) k
                   = (if p < length (dicts h) then map_of (dicts h ! p) k else None))
           \<and> (\<forall>a < length (dicts h). a \<noteq> p \<longrightarrow> dicts h' ! a = dicts h ! a))"
proof -
  from run obtain h3 h4 meta where d3: "dicts h3 = dicts h"
    and st: "stamp_metadata (Some m) tg hw dn sg ord h3 = (Inr meta, h4)"
    and d4: "dicts h' = dicts h4" and md: "metadata ct = PDict meta"
    by (rule normalize_returns)
  have m: "m < length (dicts h3)"
    using stamp_metadata_invalid [of m h3 tg hw dn sg ord] st by (cases "m < length (dicts h3)") auto
  let ?n = "length (dicts h)"
  let ?d = "dicts h ! m"
  show ?thesis
  proof (cases "map_of ?d ''preprocessing''")
    case None
    then have "stamp_metadata (Some m) tg hw dn sg ord h3 =
     (Inr ?n,
      h3\<lparr>dicts := dicts h @
          [AList.update ''preprocessing'' (PDict (Suc ?n))
             (AList.update ''spacing_mm'' (float_tuple tg) ?d),
           [(''normalize_resample'', PDict (Suc (Suc ?n)))],
           normalize_resample_record tg hw dn sg ord]\<rparr>)"
      using stamp_metadata_new_preprocessing [of m h3 tg hw dn sg ord] m d3 by simp
    with st d4 have meta: "meta = ?n"
      and D: "dicts h' = dicts h @
          [AList.update ''preprocessing'' (PDict (Suc ?n))
             (AList.update ''spacing_mm'' (float_tuple tg) ?d),
           [(''normalize_resample'', PDict (Suc (Suc ?n)))],
           normalize_resample_record tg hw dn sg ord]"
      by auto
    show ?thesis
      apply (rule exI [of _ ?n])
      using m d3 md None
      apply (simp add: meta D nth_append update_conv' dom_update)
      done
  next
    case (Some v)
    show ?thesis
    proof (cases "\<exists>p. v = PDict p")
      case False
      then show ?thesis
        using stamp_metadata_not_a_dict [of m h3 v tg hw dn sg ord] m d3 Some st by simp
    next
      case True
      then obtain p where v: "v = PDict p" ..
      with closed Some have p: "p < ?n" by simp
      have "stamp_metadata (Some m) tg hw dn sg ord h3 =
        (Inr ?n,
         h3\<lparr>dicts := (dicts h)[p := AList.update ''normalize_resample''
                                   (PDict (Suc (Suc ?n))) (dicts h ! p)] @
          [AList.update ''preprocessing'' (PDict p)
             (AList.update ''spacing_mm'' (float_tuple tg) ?d),
           [],
           normalize_resample_record tg hw dn sg ord]\<rparr>)"
        using stamp_metadata_old_preprocessing [of m h3 p tg hw dn sg ord] m d3 Some v p by simp
      with st d4 have meta: "meta = ?n"
        and D: "dicts h' = (dicts h)[p := AList.update ''normalize_resample''
                                   (PDict (Suc (Suc ?n))) (dicts h ! p)] @
          [AList.update ''preprocessing'' (PDict p)
             (AList.update ''spacing_mm'' (float_tuple tg) ?d),
           [],
           normalize_resample_record tg hw dn sg ord]"
        by auto
      show ?thesis
        apply (rule exI [of _ ?n])
        using m d3 md Some v p
        apply (simp add: meta D nth_append update_conv' dom_update)
        done
    qed
  qed
qed

lemma normalize_metadata_heap:
  "normalize_and_resample single_component_ndimage 0 (1, 1, 1) (Some 0) (1, 1, 1) (- 1000, 400)
     False (3 / 4) 1 metadata_heap =
   (Inr \<lparr>data = 1, spacing = (1, 1, 1), metadata = PDict 2\<rparr>, metadata_heap_after)"
  by code_simp

theorem stamping_keeps_other_entries_witness:
  "normalize_and_resample single_component_ndimage 0 (1, 1, 1) (Some 0) (1, 1, 1) (- 1000, 400)
     False (3 / 4) 1 metadata_heap =
   (Inr \<lparr>data = 1, spacing = (1, 1, 1), metadata = PDict 2\<rparr>, metadata_heap_after)
   \<and> map_of (dicts metadata_heap ! 0) ''preprocessing'' = Some (PDict 1)
   \<and> 1 < length (dicts metadata_heap)
   \<and> fst ` set (dicts metadata_heap_after ! 2)
       = fst ` set (dicts metadata_heap ! 0) \<union> {''spacing_mm'', ''preprocessing''}
   \<and> map_of (dicts metadata_heap_after ! 2) ''series_uid'' = Some (PStr ''s1'')
   \<and> map_of (dicts metadata_heap_after ! 2) ''spacing_mm''
       = Some (PTuple [PFloat 1, PFloat 1, PFloat 1])
   \<and> map_of (dicts metadata_heap_after ! 1) ''lung_mask'' = Some (PStr ''saved'')
   \<and> dicts metadata_heap_after ! 0 = dicts metadata_heap ! 0"
proof -
  have closed: "\<forall>p. map_of (dicts metadata_heap ! 0) ''preprocessing'' = Some (PDict p)
                  \<longrightarrow> p < length (dicts metadata_heap)"
    by (simp add: metadata_heap_def)
  show ?thesis
    using stamping_keeps_other_entries [OF normalize_metadata_heap closed]
      normalize_metadata_heap
    by (simp add: metadata_heap_def metadata_heap_after_def)
qed


theorem spacing_mm_overwritten_counterexample:
  "map_of (dicts metadata_heap ! 0) ''spacing_mm''
     = Some (PTuple [PFloat (5 / 2), PFloat 1, PFloat 1])
   \<and> normalize_and_resample single_component_ndimage 0 (1, 1, 1) (Some 0) (1, 1, 1)
       (- 1000, 400) False (3 / 4) 1 metadata_heap
     = (Inr \<lparr>data = 1, spacing = (1, 1, 1), metadata = PDict 2\<rparr>, metadata_heap_after)
   \<and> map_of (dicts metadata_heap_after ! 2) ''spacing_mm''
     = Some (PTuple [PFloat 1, PFloat 1, PFloat 1])"
  using normalize_metadata_heap by (simp add: metadata_heap_def metadata_heap_after_def)


text \<open>
  C5, at a failing input. The caller's metadata holds a \<open>preprocessing\<close> dictionary; the
  copy shares it, and after the call that dictionary of the caller holds a
  \<open>normalize_resample\<close> entry it did not hold before.
\<close>

theorem nested_preprocessing_mutated:
  "normalize_and_resample single_component_ndimage 0 (1, 1, 1) (Some 0) (1, 1, 1)
       (- 1000, 400) False (3 / 4) 1 metadata_heap
     = (Inr \<lparr>data = 1, spacing = (1, 1, 1), metadata = PDict 2\<rparr>, metadata_heap_after)
   \<and> map_of (dicts metadata_heap ! 0) ''preprocessing'' = Some (PDict 1)
   \<and> dicts metadata_heap ! 1 = [(''lung_mask'', PStr ''saved'')]
   \<and> dicts metadata_heap_after ! 1
     = [(''lung_mask'', PStr ''saved''), (''normalize_resample'', PDict 4)]"
  using normalize_metadata_heap by (simp add: metadata_heap_def metadata_heap_after_def)


section \<open>JSON: reading back what was written\<close>

lemma those_map_Some:
  "those (map f xs) = Some ys \<longleftrightarrow> list_all2 (\<lambda>x y. f x = Some y) xs ys"
proof (induction xs arbitrary: ys)
  case Nil
  then show ?case by auto
next
  case (Cons x xs)
  show ?case
    by (cases ys) (auto simp: Cons.IH split: option.splits)
qed

lemma encode_items_Some:
  "those (map (\<lambda>kv. map_option (Pair (fst kv)) (f (snd kv))) kvs) = Some kjs
     \<longleftrightarrow> list_all2 (\<lambda>kv kj. fst kj = fst kv \<and> f (snd kv) = Some (snd kj)) kvs kjs"
proof (induction kvs arbitrary: kjs)
  case Nil
  then show ?case by auto
next
  case (Cons kv kvs)
  show ?case
    by (cases kjs) (auto simp: Cons.IH split: option.splits)
qed

lemma encode_extend:
  "json_encode n ds v = Some j \<Longrightarrow> json_encode n (ds @ ext) v = Some j"
proof (induction n arbitrary: v j)
  case 0
  then show ?case by simp
next
  case (Suc n)
  show ?case
  proof (cases v)
    case (PTuple vs)
    with Suc.prems obtain js where j: "j = JArr js"
      and a: "list_all2 (\<lambda>x y. json_encode n ds x = Some y) vs js"
      by (auto simp: those_map_Some)
    from a have "list_all2 (\<lambda>x y. json_encode n (ds @ ext) x = Some y) vs js"
      by (rule list_all2_mono) (rule Suc.IH)
    then show ?thesis using PTuple j by (simp add: those_map_Some [symmetric])
  next
    case (PList vs)
    with Suc.prems obtain js where j: "j = JArr js"
      and a: "list_all2 (\<lambda>x y. json_encode n ds x = Some y) vs js"
      by (auto simp: those_map_Some)
    from a have "list_all2 (\<lambda>x y. json_encode n (ds @ ext) x = Some y) vs js"
      by (rule list_all2_mono) (rule Suc.IH)
    then show ?thesis using PList j by (simp add: those_map_Some [symmetric])
  next
    case (PDict a)
    with Suc.prems obtain kjs where j: "j = JObj kjs" and len: "a < length ds"
      and b: "list_all2 (\<lambda>kv kj. fst kj = fst kv \<and> json_encode n ds (snd kv) = Some (snd kj))
                (ds ! a) kjs"
      by (auto simp: encode_items_Some split: if_splits)
    from b have "list_all2 (\<lambda>kv kj. fst kj = fst kv
                    \<and> json_encode n (ds @ ext) (snd kv) = Some (snd kj)) (ds ! a) kjs"
      by (rule list_all2_mono) (auto dest: Suc.IH)
    then show ?thesis using PDict j len
      by (simp add: encode_items_Some [symmetric] nth_append)
  qed (use Suc.prems in auto)
qed

lemma decode_extends:
  "\<exists>ext. snd (json_decode j ds) = ds @ ext"
  "\<exists>ext. snd (json_decode_list js ds) = ds @ ext"
  "\<exists>ext. snd (json_decode_items kjs ds) = ds @ ext"
proof (induction j ds and js ds and kjs ds
    rule: json_decode_json_decode_list_json_decode_items.induct)
  case (6 js ds)
  then show ?case by (auto split: prod.splits)
next
  case (7 kjs ds)
  then show ?case by (auto split: prod.splits)
next
  case (9 j js ds)
  obtain v ds1 where a: "json_decode j ds = (v, ds1)" by (cases "json_decode j ds")
  obtain vs ds2 where b: "json_decode_list js ds1 = (vs, ds2)" by (cases "json_decode_list js ds1")
  from "9.IH"(1) a obtain e1 where "ds1 = ds @ e1" by auto
  moreover from "9.IH"(2) [OF a [symmetric]] b obtain e2 where "ds2 = ds1 @ e2" by auto
  ultimately show ?case using a b by simp
next
  case (11 kj kjs ds)
  obtain v ds1 where a: "json_decode (snd kj) ds = (v, ds1)" by (cases "json_decode (snd kj) ds")
  obtain vs ds2 where b: "json_decode_items kjs ds1 = (vs, ds2)"
    by (cases "json_decode_items kjs ds1")
  from "11.IH"(1) a obtain e1 where "ds1 = ds @ e1" by auto
  moreover from "11.IH"(2) [OF a [symmetric]] b obtain e2 where "ds2 = ds1 @ e2" by auto
  ultimately show ?case using a b by simp
qed auto


lemma update_fresh: "k \<notin> fst ` set al \<Longrightarrow> AList.update k v al = al @ [(k, v)]"
  by (induction al) auto

lemma foldl_update_distinct:
  "distinct (map fst (acc @ kvs)) \<Longrightarrow>
     foldl (\<lambda>d kv. AList.update (fst kv) (snd kv) d) acc kvs = acc @ kvs"
proof (induction kvs arbitrary: acc)
  case Nil
  then show ?case by simp
next
  case (Cons kv kvs)
  from Cons.prems have "fst kv \<notin> fst ` set acc" by auto
  then have u: "AList.update (fst kv) (snd kv) acc = acc @ [kv]"
    by (simp add: update_fresh)
  from Cons.prems have "distinct (map fst ((acc @ [kv]) @ kvs))" by simp
  from Cons.IH [OF this] show ?case by (simp add: u)
qed

lemma dict_of_pairs_distinct: "distinct (map fst kvs) \<Longrightarrow> dict_of_pairs kvs = kvs"
  using foldl_update_distinct [of "[]" kvs] by (simp add: dict_of_pairs_def)

lemma encode_fits:
  "json_encode n ds v = Some j \<Longrightarrow> dicts_distinct ds \<Longrightarrow> json_fits n j"
proof (induction n arbitrary: v j)
  case 0
  then show ?case by simp
next
  case (Suc n)
  show ?case
  proof (cases v)
    case (PTuple vs)
    with Suc.prems obtain js where j: "j = JArr js"
      and a: "list_all2 (\<lambda>x y. json_encode n ds x = Some y) vs js"
      by (auto simp: those_map_Some)
    have "list_all (json_fits n) js"
      unfolding list_all_length
    proof (intro allI impI)
      fix i assume "i < length js"
      with a have "json_encode n ds (vs ! i) = Some (js ! i)"
        by (auto simp: list_all2_conv_all_nth)
      then show "json_fits n (js ! i)" using Suc.prems(2) by (rule Suc.IH)
    qed
    then show ?thesis using j by simp
  next
    case (PList vs)
    with Suc.prems obtain js where j: "j = JArr js"
      and a: "list_all2 (\<lambda>x y. json_encode n ds x = Some y) vs js"
      by (auto simp: those_map_Some)
    have "list_all (json_fits n) js"
      unfolding list_all_length
    proof (intro allI impI)
      fix i assume "i < length js"
      with a have "json_encode n ds (vs ! i) = Some (js ! i)"
        by (auto simp: list_all2_conv_all_nth)
      then show "json_fits n (js ! i)" using Suc.prems(2) by (rule Suc.IH)
    qed
    then show ?thesis using j by simp
  next
    case (PDict a)
    with Suc.prems obtain kjs where j: "j = JObj kjs" and len: "a < length ds"
      and b: "list_all2 (\<lambda>kv kj. fst kj = fst kv \<and> json_encode n ds (snd kv) = Some (snd kj))
                (ds ! a) kjs"
      by (auto simp: encode_items_Some split: if_splits)
    have keys: "map fst kjs = map fst (ds ! a)"
      using b by (auto simp: list_all2_conv_all_nth intro!: nth_equalityI)
    have d: "distinct (map fst (ds ! a))"
      using Suc.prems(2) len by (auto simp: dicts_distinct_def list_all_length)
    have "list_all (\<lambda>kj. json_fits n (snd kj)) kjs"
      unfolding list_all_length
    proof (intro allI impI)
      fix i assume "i < length kjs"
      with b have "json_encode n ds (snd ((ds ! a) ! i)) = Some (snd (kjs ! i))"
        by (auto simp: list_all2_conv_all_nth)
      then show "json_fits n (snd (kjs ! i))" using Suc.prems(2) by (rule Suc.IH)
    qed
    then show ?thesis using j keys d by simp
  qed (use Suc.prems in auto)
qed

lemma decode_encode:
  "\<And>n. json_fits n j \<Longrightarrow>
     json_encode n (snd (json_decode j ds)) (fst (json_decode j ds)) = Some j"
  "\<And>n. list_all (json_fits n) js \<Longrightarrow>
     list_all2 (\<lambda>v j. json_encode n (snd (json_decode_list js ds)) v = Some j)
       (fst (json_decode_list js ds)) js"
  "\<And>n. list_all (\<lambda>kj. json_fits n (snd kj)) kjs \<Longrightarrow>
     list_all2 (\<lambda>kv kj. fst kj = fst kv
                  \<and> json_encode n (snd (json_decode_items kjs ds)) (snd kv) = Some (snd kj))
       (fst (json_decode_items kjs ds)) kjs"
proof (induction j ds and js ds and kjs ds
    rule: json_decode_json_decode_list_json_decode_items.induct)
  case (1 ds)
  then show ?case by (cases n) auto
next
  case (2 b ds)
  then show ?case by (cases n) auto
next
  case (3 i ds)
  then show ?case by (cases n) auto
next
  case (4 x ds)
  then show ?case by (cases n) auto
next
  case (5 s ds)
  then show ?case by (cases n) auto
next
  case (6 js ds)
  from "6.prems" obtain n' where n: "n = Suc n'" and f: "list_all (json_fits n') js"
    by (cases n) auto
  obtain vs ds' where d: "json_decode_list js ds = (vs, ds')" by (cases "json_decode_list js ds")
  from "6.IH" [OF f] d show ?case
    by (simp add: n those_map_Some)
next
  case (7 kjs ds)
  from "7.prems" obtain n' where n: "n = Suc n'" and dk: "distinct (map fst kjs)"
    and f: "list_all (\<lambda>kj. json_fits n' (snd kj)) kjs"
    by (cases n) auto
  obtain kvs ds' where d: "json_decode_items kjs ds = (kvs, ds')"
    by (cases "json_decode_items kjs ds")
  from "7.IH" [OF f] d
  have a: "list_all2 (\<lambda>kv kj. fst kj = fst kv \<and> json_encode n' ds' (snd kv) = Some (snd kj))
             kvs kjs"
    by simp
  then have keys: "map fst kvs = map fst kjs"
    by (auto simp: list_all2_conv_all_nth intro!: nth_equalityI)
  with dk have dop: "dict_of_pairs kvs = kvs" by (simp add: dict_of_pairs_distinct)
  from a have "list_all2 (\<lambda>kv kj. fst kj = fst kv
                  \<and> json_encode n' (ds' @ [kvs]) (snd kv) = Some (snd kj)) kvs kjs"
    by (rule list_all2_mono) (auto intro: encode_extend)
  then show ?case
    using d by (simp add: n dop encode_items_Some)
next
  case (8 ds)
  then show ?case by simp
next
  case (9 j js ds)
  obtain v ds1 where a: "json_decode j ds = (v, ds1)" by (cases "json_decode j ds")
  obtain vs ds2 where b: "json_decode_list js ds1 = (vs, ds2)" by (cases "json_decode_list js ds1")
  from "9.prems" have fj: "json_fits n j" and fjs: "list_all (json_fits n) js" by auto
  from "9.IH"(1) [OF fj] a have e1: "json_encode n ds1 v = Some j" by simp
  from decode_extends(2) [of js ds1] b obtain ext where "ds2 = ds1 @ ext" by auto
  with e1 have e1': "json_encode n ds2 v = Some j" by (simp add: encode_extend)
  from "9.IH"(2) [OF a [symmetric] fjs] b
  have "list_all2 (\<lambda>v j. json_encode n ds2 v = Some j) vs js" by simp
  with e1' show ?case using a b by simp
next
  case (10 ds)
  then show ?case by simp
next
  case (11 kj kjs ds)
  obtain v ds1 where a: "json_decode (snd kj) ds = (v, ds1)" by (cases "json_decode (snd kj) ds")
  obtain kvs ds2 where b: "json_decode_items kjs ds1 = (kvs, ds2)"
    by (cases "json_decode_items kjs ds1")
  from "11.prems" have fj: "json_fits n (snd kj)"
    and fjs: "list_all (\<lambda>kj. json_fits n (snd kj)) kjs" by auto
  from "11.IH"(1) [OF fj] a have e1: "json_encode n ds1 v = Some (snd kj)" by simp
  from decode_extends(3) [of kjs ds1] b obtain ext where "ds2 = ds1 @ ext" by auto
  with e1 have e1': "json_encode n ds2 v = Some (snd kj)" by (simp add: encode_extend)
  from "11.IH"(2) [OF a [symmetric] fjs] b
  have "list_all2 (\<lambda>kv kj. fst kj = fst kv \<and> json_encode n ds2 (snd kv) = Some (snd kj))
          kvs kjs" by simp
  with e1' show ?case using a b by simp
qed

lemma json_roundtrip:
  assumes "json_encode n ds v = Some j" "dicts_distinct ds"
  shows "json_encode n (snd (json_decode j ds0)) (fst (json_decode j ds0)) = Some j"
  using decode_encode(1) [OF encode_fits [OF assms]] .


section \<open>The cache: round trip and hits\<close>

lemma dump_metadata:
  assumes "py_bind (or_empty_dict (PDict a)) json_dumps h = (Inr j, h')"
  shows "json_encode (recursion_limit h) (dicts h) (PDict a) = Some j"
    and "arrays h' = arrays h" and "recursion_limit h' = recursion_limit h"
    and "\<exists>ext. dicts h' = dicts h @ ext"
proof -
  from assms have a: "a < length (dicts h)"
    by (auto simp: py_bind_def or_empty_dict_def truthy_def get_dict_def split: if_splits)
  show "json_encode (recursion_limit h) (dicts h) (PDict a) = Some j"
  proof (cases "dicts h ! a = []")
    case False
    with assms a show ?thesis
      by (auto simp: py_bind_def or_empty_dict_def truthy_def get_dict_def py_return_def
          json_dumps_def split: option.splits)
  next
    case True
    with assms a have "json_encode (recursion_limit h) (dicts h @ [[]]) (PDict (length (dicts h)))
        = Some j"
      by (auto simp: py_bind_def or_empty_dict_def truthy_def get_dict_def py_return_def
          json_dumps_def new_dict_def split: option.splits)
    then show ?thesis using True a
      by (cases "recursion_limit h") auto
  qed
  show "arrays h' = arrays h" "recursion_limit h' = recursion_limit h"
    "\<exists>ext. dicts h' = dicts h @ ext"
    using assms a
    by (auto simp: py_bind_def or_empty_dict_def truthy_def get_dict_def py_return_def
        json_dumps_def new_dict_def split: option.splits if_splits)
qed

lemma read_float32:
  assumes "py_bind (astype_float32 v) get_array h = (Inr arr, h')"
  shows "v < length (arrays h)" "arr = as_float32 (arrays h ! v)" "dicts h' = dicts h"
    "recursion_limit h' = recursion_limit h"
  using assms
  by (auto simp: py_bind_def astype_float32_def get_array_def py_return_def new_array_def
      as_float32_def split: if_splits)

lemma as_float32_idem [simp]: "as_float32 (as_float32 a) = as_float32 a"
  by (simp add: as_float32_def)

text \<open>
  What is read back in general. When \<open>save_cached_volume\<close> has written a volume whose
  metadata is a dictionary, \<open>load_cached_volume\<close> of the file written returns a volume
  whose data are the saved data as float32 (the saved data themselves when they were
  float32), whose spacing is the saved spacing rounded to float32 component by component,
  and whose metadata have the JSON document of the saved metadata.
\<close>

lemma cache_round_trip:
  assumes save: "save_cached_volume ct cache_path w = (Inr (), w1)"
    and md: "metadata ct = PDict a"
    and dd: "dicts_distinct (dicts (heap w))"
  shows "\<exists>ct' w2. load_cached_volume (npz_file cache_path) w1 = (Inr ct', w2)
      \<and> data ct < length (arrays (heap w))
      \<and> arrays (heap w2) ! data ct' = as_float32 (arrays (heap w) ! data ct)
      \<and> (dtype (arrays (heap w) ! data ct) = Float32 \<longrightarrow>
            arrays (heap w2) ! data ct' = arrays (heap w) ! data ct)
      \<and> spacing ct' = float32_triple (spacing ct)
      \<and> metadata_json w ct \<noteq> None
      \<and> metadata_json w2 ct' = metadata_json w ct"
proof -
  from save md obtain j wa arr wb where
    s1: "in_heap (py_bind (or_empty_dict (PDict a)) json_dumps) w = (Inr j, wa)"
    and s2: "in_heap (py_bind (astype_float32 (data ct)) get_array) wa = (Inr arr, wb)"
    and s3: "w1 = wb\<lparr>files := (files wb)(npz_file cache_path \<mapsto>
               \<lparr>npz_data = arr, npz_spacing = (Float32, float32_triple (spacing ct)),
                npz_metadata_json = j\<rparr>)\<rparr>"
    unfolding save_cached_volume_def
    by (elim bind_InrE) (auto simp: write_npz_def)
  from s1 obtain ha where ha: "py_bind (or_empty_dict (PDict a)) json_dumps (heap w) = (Inr j, ha)"
    and wa: "heap wa = ha"
    by (auto simp: in_heap_def split: prod.splits)
  from s2 wa obtain hb where hb: "py_bind (astype_float32 (data ct)) get_array ha = (Inr arr, hb)"
    and wb: "heap wb = hb"
    by (auto simp: in_heap_def split: prod.splits)
  note A = dump_metadata [OF ha] and B = read_float32 [OF hb]
  let ?lim = "recursion_limit (heap w)"
  let ?dec = "json_decode j (dicts hb)"
  have rt: "json_encode ?lim (snd ?dec) (fst ?dec) = Some j"
    by (rule json_roundtrip [OF A(1) dd])
  have arr: "arr = as_float32 (arrays (heap w) ! data ct)"
    using A B by simp
  let ?ct' = "\<lparr>data = length (arrays hb), spacing = float32_triple (spacing ct),
               metadata = fst ?dec\<rparr>"
  let ?w2 = "w1\<lparr>heap := hb\<lparr>arrays := arrays hb @ [arr], dicts := snd ?dec\<rparr>\<rparr>"
  have ld: "load_cached_volume (npz_file cache_path) w1 = (Inr ?ct', ?w2)"
    using s3 wb arr
    by (simp add: load_cached_volume_def in_heap_def py_bind_def new_array_def json_loads_def
        py_return_def spacing_as_float32_def split: prod.splits)
  show ?thesis
    apply (rule exI [of _ ?ct'], rule exI [of _ ?w2])
    using ld A B rt arr md
    apply (simp add: metadata_json_def as_float32_def)
    done
qed


text \<open>
  C2, at a failing input. A volume of spacing (2.5, 0.8, 0.8) is saved and the file is
  loaded: the spacing read back is (2.5, 0.800000011920929, 0.800000011920929), the
  float32 values nearest to the doubles saved, and differs from the spacing saved.
\<close>

theorem cached_spacing_rounded_to_float32:
  "fst (save_cached_volume thick_slice_volume ''ct_volume.npz'' cached_world) = Inr ()
   \<and> map_sum id spacing
        (fst (load_cached_volume ''ct_volume.npz''
               (snd (save_cached_volume thick_slice_volume ''ct_volume.npz'' cached_world))))
      = Inr (5 / 2, 13421773 / 16777216, 13421773 / 16777216)
   \<and> spacing thick_slice_volume
      = (5 / 2, 3602879701896397 / 4503599627370496, 3602879701896397 / 4503599627370496)
   \<and> (13421773 / 16777216 :: rat) \<noteq> 3602879701896397 / 4503599627370496"
  by code_simp

















section \<open>Lung segmentation: errors and empty masks\<close>

lemma shape_remove_small [simp]: "shape (fst (remove_small m (l, c))) = shape l"
  by (simp add: remove_small_def Let_def)

lemma post_process_ok:
  assumes "shape m \<noteq> []" "\<forall>m n. shape (nd_binary_closing lib m n) = shape m"
  shows "\<exists>r. post_process lib cfg m = Inr r"
  using assms by (auto simp: post_process_def fill_slices_def Let_def split: list.splits)

lemma bincount_nonempty: "xs \<noteq> [] \<Longrightarrow> bincount xs \<noteq> []"
  by (simp add: bincount_def)

lemma segment_lung_3d_returns:
  assumes k: "keeps_shape lib" and d: "length (shape v) = 3"
  shows "\<exists>m. segment_lung lib v cfg = Inr m"
proof -
  let ?t = "\<lparr>dtype = Bool, shape = shape v, elems = map (\<lambda>x. x < hu_threshold cfg) (elems v)\<rparr>"
  obtain labeled n where l: "nd_label lib ?t = (labeled, n)" by (cases "nd_label lib ?t")
  obtain l' cs where r: "remove_small (min_component_size cfg) (labeled, (bincount (elems labeled))[0 := 0]) = (l', cs)"
    by (cases "remove_small (min_component_size cfg) (labeled, (bincount (elems labeled))[0 := 0])")
  from k l have sh: "shape labeled = shape v" and len: "length (elems labeled) = length (elems v)"
    by (auto simp: keeps_shape_def dest: spec [where x = ?t])
  have sh': "shape l' = shape v" using shape_remove_small [of "min_component_size cfg" labeled "(bincount (elems labeled))[0 := 0]"] r sh by simp
  have pp: "\<exists>m. post_process lib cfg (isin l' ks) = Inr m" for ks
    by (rule post_process_ok) (use k sh' d in \<open>auto simp: isin_def keeps_shape_def\<close>)
  have ne: "list_ex id (elems ?t) \<Longrightarrow> bincount (elems labeled) \<noteq> []"
    using len by (intro bincount_nonempty) (auto simp: list_ex_iff)
  show ?thesis
    using d l r pp ne by (auto simp: segment_lung_def Let_def)
qed


lemma remove_small_all:
  assumes "\<forall>i < length cs. int (cs ! i) < m" "cs \<noteq> []"
  shows "list_all (\<lambda>s. s = 0) (snd (remove_small m (l, cs)))"
proof -
  have f: "filter (\<lambda>i. int (cs ! i) < m) [0..<length cs] = [0..<length cs]"
    using assms(1) by (auto intro: filter_True)
  have "0 < m" using assms by (cases cs) force+
  then show ?thesis
    using assms(2) by (simp add: remove_small_def f Let_def list_all_iff)
qed

lemma bincount_nth:
  "i < length (bincount xs) \<Longrightarrow> bincount xs ! i = count_list xs i"
  by (auto simp: bincount_def split: if_splits simp del: upt_Suc)

lemma segment_lung_no_signal:
  assumes k: "keeps_shape lib" and d: "length (shape v) = 3"
    and n: "(\<forall>x \<in> set (elems v). \<not> x < hu_threshold cfg)
          \<or> snd (nd_label lib (threshold v cfg)) = 0
          \<or> (\<forall>l. 0 < l \<longrightarrow>
                int (count_list (elems (fst (nd_label lib (threshold v cfg)))) l)
                  < min_component_size cfg)"
  shows "segment_lung lib v cfg = Inr (all_false v)"
proof -
  let ?t = "threshold v cfg"
  obtain labeled nf where l: "nd_label lib ?t = (labeled, nf)" by (cases "nd_label lib ?t")
  let ?cs = "(bincount (elems labeled))[0 := 0]"
  obtain l' cs where r: "remove_small (min_component_size cfg) (labeled, ?cs) = (l', cs)"
    by (cases "remove_small (min_component_size cfg) (labeled, ?cs)")
  have z: "zeros_like ?t = all_false v"
    by (simp add: zeros_like_def all_false_def threshold_def)
  from k l have len: "length (elems labeled) = length (elems v)"
    by (auto simp: keeps_shape_def threshold_def dest: spec [where x = ?t])
  consider (a) "\<forall>x \<in> set (elems v). \<not> x < hu_threshold cfg"
    | (b) "nf = 0"
    | (c) "list_ex id (elems ?t)" "nf \<noteq> 0" "\<forall>l. 0 < l \<longrightarrow> int (count_list (elems labeled) l) < min_component_size cfg"
    using n l by (cases "list_ex id (elems ?t)"; cases "nf = 0") (auto simp: list_ex_iff threshold_def)
  then show ?thesis
  proof cases
    case a
    then have "\<not> list_ex id (elems ?t)" by (auto simp: list_ex_iff threshold_def)
    then show ?thesis using d z by (simp add: segment_lung_def threshold_def [symmetric] Let_def)
  next
    case b
    then show ?thesis using d z l by (simp add: segment_lung_def threshold_def [symmetric] Let_def)
  next
    case c
    have ne: "bincount (elems labeled) \<noteq> []"
      using len c(1) by (intro bincount_nonempty) (auto simp: list_ex_iff threshold_def)
    have "\<forall>i < length ?cs. int (?cs ! i) < min_component_size cfg"
    proof (intro allI impI)
      fix i assume i: "i < length ?cs"
      have pos: "0 < min_component_size cfg"
      proof -
        have "0 \<le> int (count_list (elems labeled) 1)" by simp
        also have "\<dots> < min_component_size cfg" using c(3) by simp
        finally show ?thesis .
      qed
      show "int (?cs ! i) < min_component_size cfg"
      proof (cases "i = 0")
        case True
        then show ?thesis using i pos by simp
      next
        case False
        then show ?thesis using i c(3) by (simp add: bincount_nth)
      qed
    qed
    from remove_small_all [OF this, of labeled] ne r have "list_all (\<lambda>s. s = 0) cs" by simp
    then show ?thesis
      using d z l r ne c(1,2) by (simp add: segment_lung_def threshold_def [symmetric] Let_def)
  qed
qed

lemma segment_lung_not_3d:
  "length (shape v) \<noteq> 3 \<Longrightarrow> segment_lung lib v cfg = Inl (ValueError (Expected_3D_volume (shape v)))"
  by (simp add: segment_lung_def)

text \<open>
  C8. For a library that keeps shapes: \<open>segment_lung\<close> raises the ValueError carrying the
  shape when the volume is not 3-dimensional; it returns for every 3-dimensional volume
  and every configuration; and when no voxel is below the threshold, or the labelling
  finds no component, or every component is smaller than the minimum size, it returns the
  all-false mask of the volume's shape.
\<close>

theorem segment_lung_errors_and_no_signal:
  assumes "keeps_shape lib"
  shows "(length (shape v) \<noteq> 3 \<longrightarrow>
            segment_lung lib v cfg = Inl (ValueError (Expected_3D_volume (shape v))))
       \<and> (length (shape v) = 3 \<longrightarrow> (\<exists>m. segment_lung lib v cfg = Inr m))
       \<and> (length (shape v) = 3 \<and>
            ((\<forall>x \<in> set (elems v). \<not> x < hu_threshold cfg)
             \<or> snd (nd_label lib (threshold v cfg)) = 0
             \<or> (\<forall>l. 0 < l \<longrightarrow>
                   int (count_list (elems (fst (nd_label lib (threshold v cfg)))) l)
                     < min_component_size cfg)) \<longrightarrow>
            segment_lung lib v cfg = Inr (all_false v))"
  using segment_lung_not_3d segment_lung_3d_returns [OF assms] segment_lung_no_signal [OF assms]
  by blast

lemma keeps_shape_single: "keeps_shape single_component_ndimage"
  by (simp add: keeps_shape_def single_component_ndimage_def)

theorem segment_lung_errors_and_no_signal_witness:
  "keeps_shape single_component_ndimage
   \<and> segment_lung single_component_ndimage
       \<lparr>dtype = Float32, shape = [2, 2], elems = [100, 100, 100, 100]\<rparr> default_config
     = Inl (ValueError (Expected_3D_volume [2, 2]))
   \<and> segment_lung single_component_ndimage
       \<lparr>dtype = Float32, shape = [1, 1, 2], elems = [100, 100]\<rparr> default_config
     = Inr \<lparr>dtype = Bool, shape = [1, 1, 2], elems = [False, False]\<rparr>
   \<and> segment_lung single_component_ndimage one_lung_volume default_config
     = Inr \<lparr>dtype = Bool, shape = [1, 1, 3], elems = [False, False, False]\<rparr>"
proof -
  note k = keeps_shape_single
  let ?flat = "\<lparr>dtype = Float32, shape = [2, 2], elems = [100, 100, 100, 100]\<rparr> :: rat ndarray"
  let ?body = "\<lparr>dtype = Float32, shape = [1, 1, 2], elems = [100, 100]\<rparr> :: rat ndarray"
  have "length (shape ?flat) \<noteq> 3" by simp
  with segment_lung_errors_and_no_signal [OF k, of ?flat default_config]
  have a: "segment_lung single_component_ndimage ?flat default_config
             = Inl (ValueError (Expected_3D_volume (shape ?flat)))"
    by blast
  have "length (shape ?body) = 3"
    and "\<forall>x \<in> set (elems ?body). \<not> x < hu_threshold default_config"
    by (simp_all add: default_config_def)
  with segment_lung_errors_and_no_signal [OF k, of ?body default_config]
  have b: "segment_lung single_component_ndimage ?body default_config = Inr (all_false ?body)"
    by blast
  have "int (count_list [Suc 0, 0, 0] l) < 10000" for l by simp
  then have "length (shape one_lung_volume) = 3"
    and "\<forall>l. 0 < l \<longrightarrow>
           int (count_list (elems (fst (nd_label single_component_ndimage
                  (threshold one_lung_volume default_config)))) l)
             < min_component_size default_config"
    by (simp_all add: default_config_def one_lung_volume_def threshold_def
        single_component_ndimage_def)
  with segment_lung_errors_and_no_signal [OF k, of one_lung_volume default_config]
  have c: "segment_lung single_component_ndimage one_lung_volume default_config
             = Inr (all_false one_lung_volume)"
    by blast
  show ?thesis
    using k a b c by (simp add: all_false_def one_lung_volume_def)
qed

text \<open>
  C1, at a failing input. One component survives the size filter and two are to be kept:
  the last two labels of the ranking are that component and label 0, the background, and
  the mask returned holds the two voxels of soft tissue as well.
\<close>

theorem segment_lung_one_component_selects_background:
  "segment_lung single_component_ndimage one_lung_volume keep_two_config
     = Inr \<lparr>dtype = Bool, shape = [1, 1, 3], elems = [True, True, True]\<rparr>"
  by code_simp


section \<open>The cache file of a series\<close>

lemma path_name_join:
  assumes "CHR ''/'' \<notin> set name" "name \<noteq> []"
  shows "path_name (path_join dir name) = name"
proof -
  from assms obtain c cs where n: "name = c # cs" by (cases name) auto
  show ?thesis
  proof (cases "dir = []")
    case True
    with n have pj: "path_join dir name = name"
      by (simp add: path_join_def)
    have t: "takeWhile (\<lambda>c. c \<noteq> CHR ''/'') (rev name) = rev name"
      using assms(1) by (intro takeWhile_eq_all_conv [THEN iffD2]) auto
    show ?thesis unfolding path_name_def pj t by simp
  next
    case False
    with n assms have j: "path_join dir name = dir @ ''/'' @ name"
      by (auto simp: path_join_def)
    have "takeWhile (\<lambda>c. c \<noteq> CHR ''/'') (rev name @ CHR ''/'' # rev dir) = rev name"
      using assms(1) by (subst takeWhile_append2) auto
    then show ?thesis by (simp add: j path_name_def)
  qed
qed

lemma path_parent_join:
  assumes "CHR ''/'' \<notin> set name" "name \<noteq> []"
  shows "path_parent (path_join dir name) = dir"
proof -
  from assms obtain c cs where n: "name = c # cs" by (cases name) auto
  show ?thesis
  proof (cases "dir = []")
    case True
    with n have pj: "path_join dir name = name"
      by (simp add: path_join_def)
    have t: "dropWhile (\<lambda>c. c \<noteq> CHR ''/'') (rev name) = []"
      using assms(1) by (intro dropWhile_eq_Nil_conv [THEN iffD2]) auto
    show ?thesis unfolding path_parent_def pj t using True by simp
  next
    case False
    with n assms have j: "path_join dir name = dir @ ''/'' @ name"
      by (auto simp: path_join_def)
    have "dropWhile (\<lambda>c. c \<noteq> CHR ''/'') (rev name @ CHR ''/'' # rev dir)
            = CHR ''/'' # rev dir"
      using assms(1) by (subst dropWhile_append2) auto
    then show ?thesis by (simp add: j path_parent_def)
  qed
qed

lemma cache_file_name_plain:
  "CHR ''/'' \<notin> set (safe_key k @ ''_normalized_resampled.npz'')"
  by (auto simp: safe_key_def)

text \<open>
  C6, as amended. For a row with a series id and a raw path, the cache file lies in
  \<open>output_root/dataset/volumes\<close> and its name is the cache key \<open>dataset__series\<close>, its
  separators replaced by underscores, followed by \<open>_normalized_resampled.npz\<close>.
\<close>

theorem series_cache_path_name:
  assumes "row series_uid_field = Some series_uid" "row input_path_field = Some raw_rel"
  shows "\<exists>p. series_cache_path resolve data_root output_root row input_path_field
              series_uid_field = Inr p
           \<and> path_parent p = path_join (path_join output_root (dataset_of row)) ''volumes''
           \<and> path_name p = safe_key (dataset_of row @ ''__'' @ series_uid)
                              @ ''_normalized_resampled.npz''"
  using assms cache_file_name_plain [of "dataset_of row @ ''__'' @ series_uid"]
  by (simp add: series_cache_path_def build_paths_for_series_def Let_def dataset_of_def
      build_cache_key_def cache_path_for_key_def path_name_join path_parent_join)

theorem series_cache_path_name_witness:
  "nlst_row ''series_uid'' = Some ''s1'' \<and> nlst_row ''raw_image_path'' = Some ''nlst/s1.nii.gz''
   \<and> (\<exists>p. series_cache_path id ''data'' ''out'' nlst_row ''raw_image_path'' ''series_uid'' = Inr p
          \<and> path_parent p = ''out/nlst/volumes''
          \<and> path_name p = ''nlst__s1_normalized_resampled.npz'')"
proof -
  have a: "nlst_row ''series_uid'' = Some ''s1''"
    and b: "nlst_row ''raw_image_path'' = Some ''nlst/s1.nii.gz''"
    by (simp_all add: nlst_row_def)
  have d: "dataset_of nlst_row = ''nlst''"
    by (simp add: dataset_of_def nlst_row_def COL_DATASET_NAME_def)
  show ?thesis
    using series_cache_path_name [OF a b, of id "''data''" "''out''"] a b
    by (simp add: d path_join_def safe_key_def)
qed

theorem series_cache_path_counterexample:
  "series_cache_path id ''data'' ''out'' nlst_row ''raw_image_path'' ''series_uid''
     = Inr ''out/nlst/volumes/nlst__s1_normalized_resampled.npz''
   \<and> ''out/nlst/volumes/nlst__s1_normalized_resampled.npz'' \<noteq> ''out/nlst/volumes/nlst__s1.npz''"
  by (simp add: series_cache_path_def build_paths_for_series_def Let_def nlst_row_def
      COL_DATASET_NAME_def build_cache_key_def cache_path_for_key_def path_join_def safe_key_def)


end
